theory Spec2Isabelle
  imports Main "HOL-Library.Sublist"
begin

section \<open>The pane list model (panes package, BasePaneModel)\<close>

text \<open>
  Go's \<open>int\<close> is modelled as \<open>int\<close>. The integers of the list model are indices into
  a slice held in memory, lengths of such slices, and the window size, which is 50 from
  construction on (\<open>SetMaxDisplayItems\<close> is called nowhere in the repository). Where a
  theorem covers other window sizes it assumes \<open>fits_int\<close>, under which no sum below
  leaves the 64-bit range. \<open>len\<close> is Go's built-in length of a slice, as an \<open>int\<close>.
\<close>

definition len :: "'a list \<Rightarrow> int" where
  "len xs = int (length xs)"

datatype PaneType =
  StatusPaneType | FilesPaneType | BranchesPaneType | CommitsPaneType | StashPaneType | DiffPaneType

text \<open>
  \<open>PaneItem\<close>: the field \<open>Metadata interface{}\<close> is an opaque payload that none of the
  functions modelled here reads or writes; it is left out of the record.
\<close>

record PaneItem =
  Display :: string
  Value :: string
  Icon :: string
  Type :: string
  Selected :: bool
  Color :: string

text \<open>
  \<open>BasePaneModel\<close>: the Go fields \<open>id\<close> and \<open>filter\<close> are named \<open>id_pane\<close> and
  \<open>filter_pane\<close>. A pane type that embeds \<open>BasePaneModel\<close>
  (\<open>StashPane\<close>, \<open>BranchesPane\<close>, ...) is the record with its own fields in the
  extension slot, so every function below is written on the record scheme.
\<close>

record BasePaneModel =
  title :: string
  paneType :: PaneType
  id_pane :: string
  items :: "PaneItem list"
  selectedIndex :: int
  active :: bool
  loading :: bool
  showLineNumbers :: bool
  maxDisplayItems :: int
  filter_pane :: string
  scrollOffset :: int

definition NewBasePaneModel :: "string \<Rightarrow> PaneType \<Rightarrow> string \<Rightarrow> BasePaneModel" where
  "NewBasePaneModel t ty i =
     \<lparr> title = t, paneType = ty, id_pane = i, items = [], selectedIndex = 0,
       active = False, loading = False, showLineNumbers = False, maxDisplayItems = 50,
       filter_pane = [], scrollOffset = 0 \<rparr>"

definition adjustScrollOffset :: "'a BasePaneModel_scheme \<Rightarrow> 'a BasePaneModel_scheme" where
  "adjustScrollOffset b =
     (if len (items b) = 0 then b\<lparr>scrollOffset := 0\<rparr>
      else
        let b1 = (if selectedIndex b < scrollOffset b
                  then b\<lparr>scrollOffset := selectedIndex b\<rparr> else b);
            b2 = (if selectedIndex b1 \<ge> scrollOffset b1 + maxDisplayItems b1
                  then b1\<lparr>scrollOffset := selectedIndex b1 - maxDisplayItems b1 + 1\<rparr> else b1)
        in (if scrollOffset b2 < 0 then b2\<lparr>scrollOffset := 0\<rparr> else b2))"

definition MoveUp :: "'a BasePaneModel_scheme \<Rightarrow> 'a BasePaneModel_scheme" where
  "MoveUp b =
     (if len (items b) = 0 then b
      else adjustScrollOffset
             (if selectedIndex b > 0 then b\<lparr>selectedIndex := selectedIndex b - 1\<rparr>
              else b\<lparr>selectedIndex := len (items b) - 1\<rparr>))"

definition MoveDown :: "'a BasePaneModel_scheme \<Rightarrow> 'a BasePaneModel_scheme" where
  "MoveDown b =
     (if len (items b) = 0 then b
      else adjustScrollOffset
             (if selectedIndex b < len (items b) - 1 then b\<lparr>selectedIndex := selectedIndex b + 1\<rparr>
              else b\<lparr>selectedIndex := 0\<rparr>))"

definition MoveToTop :: "'a BasePaneModel_scheme \<Rightarrow> 'a BasePaneModel_scheme" where
  "MoveToTop b = b\<lparr>selectedIndex := 0, scrollOffset := 0\<rparr>"

definition MoveToBottom :: "'a BasePaneModel_scheme \<Rightarrow> 'a BasePaneModel_scheme" where
  "MoveToBottom b =
     (if len (items b) > 0
      then adjustScrollOffset (b\<lparr>selectedIndex := len (items b) - 1\<rparr>) else b)"

definition SelectItem :: "int \<Rightarrow> 'a BasePaneModel_scheme \<Rightarrow> 'a BasePaneModel_scheme" where
  "SelectItem index b =
     (if index \<ge> 0 \<and> index < len (items b)
      then adjustScrollOffset (b\<lparr>selectedIndex := index\<rparr>) else b)"

definition IsActive :: "'a BasePaneModel_scheme \<Rightarrow> bool" where
  "IsActive b = active b"

definition SetActive :: "bool \<Rightarrow> 'a BasePaneModel_scheme \<Rightarrow> 'a BasePaneModel_scheme" where
  "SetActive a b = b\<lparr>active := a\<rparr>"

definition IsLoading :: "'a BasePaneModel_scheme \<Rightarrow> bool" where
  "IsLoading b = loading b"

definition SetLoading :: "bool \<Rightarrow> 'a BasePaneModel_scheme \<Rightarrow> 'a BasePaneModel_scheme" where
  "SetLoading l b = b\<lparr>loading := l\<rparr>"

definition Clear :: "'a BasePaneModel_scheme \<Rightarrow> 'a BasePaneModel_scheme" where
  "Clear b = b\<lparr>items := [], selectedIndex := 0, scrollOffset := 0\<rparr>"

definition AddItem :: "PaneItem \<Rightarrow> 'a BasePaneModel_scheme \<Rightarrow> 'a BasePaneModel_scheme" where
  "AddItem item b = b\<lparr>items := items b @ [item]\<rparr>"

text \<open>
  \<open>RemoveItem\<close>: \<open>append(b.items[:index], b.items[index+1:]...)\<close> is the slice without
  its element \<open>index\<close>; both slice expressions are in range under the guard.
\<close>

definition RemoveItem :: "int \<Rightarrow> 'a BasePaneModel_scheme \<Rightarrow> 'a BasePaneModel_scheme" where
  "RemoveItem index b =
     (if index \<ge> 0 \<and> index < len (items b)
      then
        let b1 = b\<lparr>items := take (nat index) (items b) @ drop (nat (index + 1)) (items b)\<rparr>;
            b2 = (if selectedIndex b1 \<ge> len (items b1) \<and> len (items b1) > 0
                  then b1\<lparr>selectedIndex := len (items b1) - 1\<rparr> else b1)
        in adjustScrollOffset b2
      else b)"

definition SetMaxDisplayItems :: "int \<Rightarrow> 'a BasePaneModel_scheme \<Rightarrow> 'a BasePaneModel_scheme" where
  "SetMaxDisplayItems m b = b\<lparr>maxDisplayItems := m\<rparr>"

definition SetShowLineNumbers :: "bool \<Rightarrow> 'a BasePaneModel_scheme \<Rightarrow> 'a BasePaneModel_scheme" where
  "SetShowLineNumbers show_numbers b = b\<lparr>showLineNumbers := show_numbers\<rparr>"

text \<open>
  \<open>GetSelectedItem\<close> returns a pointer to the selected element or \<open>nil\<close>; the model
  returns the element, \<open>None\<close> for \<open>nil\<close>. The index expression is only reached when
  the guard has established \<open>0 \<le> selectedIndex < len\<close>.
\<close>

definition GetSelectedItem :: "'a BasePaneModel_scheme \<Rightarrow> PaneItem option" where
  "GetSelectedItem b =
     (if len (items b) = 0 \<or> selectedIndex b \<ge> len (items b) \<or> selectedIndex b < 0
      then None
      else Some (items b ! nat (selectedIndex b)))"

text \<open>
  A Go slice expression \<open>xs[lo:hi]\<close> panics unless \<open>0 \<le> lo \<le> hi \<le> cap(xs)\<close>. The model
  checks \<open>hi\<close> against the length, which is at most the capacity, so it panics at least
  wherever Go does; \<open>None\<close> is the panic.
\<close>

definition slice :: "'a list \<Rightarrow> int \<Rightarrow> int \<Rightarrow> 'a list option" where
  "slice xs lo hi =
     (if 0 \<le> lo \<and> lo \<le> hi \<and> hi \<le> len xs
      then Some (take (nat (hi - lo)) (drop (nat lo) xs)) else None)"

definition GetVisibleItems :: "'a BasePaneModel_scheme \<Rightarrow> PaneItem list option" where
  "GetVisibleItems b =
     (if len (items b) = 0 then Some []
      else
        let start = scrollOffset b;
            end0 = start + maxDisplayItems b;
            end1 = (if end0 > len (items b) then len (items b) else end0);
            start1 = (if start > end1 then end1 else start)
        in slice (items b) start1 end1)"


subsection \<open>Filtering\<close>

text \<open>
  \<open>strings.ToLower\<close> and \<open>strings.Contains\<close> belong to Go's standard library. Strings
  are byte lists. On a string whose bytes are all below 128 \<open>ToLower\<close> maps the letters
  \<open>A\<close>..\<open>Z\<close> to \<open>a\<close>..\<open>z\<close> byte by byte and leaves every other byte as it is; on
  any other string it decodes UTF-8 and applies Unicode's lower-case mapping to every
  code point. That mapping and its tables are the parameter \<open>unicodeLower\<close>.
  \<open>Contains s substr\<close> holds when \<open>substr\<close> occurs in \<open>s\<close> as a contiguous run.
\<close>

definition isASCII :: "string \<Rightarrow> bool" where
  "isASCII s = list_all (\<lambda>c. (of_char c :: nat) < 128) s"

definition toLowerByte :: "char \<Rightarrow> char" where
  "toLowerByte c =
     (let n = (of_char c :: nat) in if 65 \<le> n \<and> n \<le> 90 then char_of (n + 32) else c)"

definition ToLower :: "(string \<Rightarrow> string) \<Rightarrow> string \<Rightarrow> string" where
  "ToLower unicodeLower s = (if isASCII s then map toLowerByte s else unicodeLower s)"

fun Contains :: "string \<Rightarrow> string \<Rightarrow> bool" where
  "Contains [] substr = (substr = [])"
| "Contains (c # cs) substr = (prefix substr (c # cs) \<or> Contains cs substr)"

definition containsIgnoreCase :: "(string \<Rightarrow> string) \<Rightarrow> string \<Rightarrow> string \<Rightarrow> bool" where
  "containsIgnoreCase unicodeLower s substr =
     Contains (ToLower unicodeLower s) (ToLower unicodeLower substr)"

text \<open>
  \<open>Filter\<close>: the loop appends each matching item to a fresh slice, in stored order. The
  method reads \<open>b.items\<close> and assigns to no field of \<open>b\<close>, so the model is a function of
  the state that returns the filtered view only.
\<close>

definition Filter ::
  "(string \<Rightarrow> string) \<Rightarrow> string \<Rightarrow> 'a BasePaneModel_scheme \<Rightarrow> PaneItem list" where
  "Filter unicodeLower query b =
     (if query = [] then items b
      else foldl (\<lambda>filtered item.
                    if containsIgnoreCase unicodeLower (Display item) query
                       \<or> containsIgnoreCase unicodeLower (Value item) query
                    then filtered @ [item] else filtered)
                 [] (items b))"

text \<open>
  What the specification means by a text containing a query case-insensitively, written
  without reference to the code, for ASCII text: two bytes are the same letter when they
  are equal or are the capital and the small form of one of the 26 letters; a text
  contains a query when some contiguous run of the text has the length of the query and
  agrees with it letter by letter.
\<close>

definition letter_pairs :: "(char \<times> char) list" where
  "letter_pairs = zip ''ABCDEFGHIJKLMNOPQRSTUVWXYZ'' ''abcdefghijklmnopqrstuvwxyz''"

definition same_letter :: "char \<Rightarrow> char \<Rightarrow> bool" where
  "same_letter a b \<longleftrightarrow> a = b \<or> (a, b) \<in> set letter_pairs \<or> (b, a) \<in> set letter_pairs"

definition same_ignoring_case :: "string \<Rightarrow> string \<Rightarrow> bool" where
  "same_ignoring_case u v \<longleftrightarrow> list_all2 same_letter u v"

definition contains_case_insensitively :: "string \<Rightarrow> string \<Rightarrow> bool" where
  "contains_case_insensitively s query \<longleftrightarrow>
     (\<exists>before run after. s = before @ run @ after \<and> same_ignoring_case run query)"

subsection \<open>Operations as data, reachable states\<close>

datatype ListOp =
  OpMoveUp | OpMoveDown | OpMoveToTop | OpMoveToBottom | OpSelectItem int
  | OpAddItem PaneItem | OpRemoveItem int | OpClear

fun perform :: "ListOp \<Rightarrow> 'a BasePaneModel_scheme \<Rightarrow> 'a BasePaneModel_scheme" where
  "perform OpMoveUp b = MoveUp b"
| "perform OpMoveDown b = MoveDown b"
| "perform OpMoveToTop b = MoveToTop b"
| "perform OpMoveToBottom b = MoveToBottom b"
| "perform (OpSelectItem i) b = SelectItem i b"
| "perform (OpAddItem item) b = AddItem item b"
| "perform (OpRemoveItem i) b = RemoveItem i b"
| "perform OpClear b = Clear b"

text \<open>
  The states a pane list can be in: a freshly constructed \<open>BasePaneModel\<close>, and whatever
  the public list operations \<open>MoveUp\<close>, \<open>MoveDown\<close>, \<open>MoveToTop\<close>, \<open>MoveToBottom\<close>,
  \<open>SelectItem\<close>, \<open>AddItem\<close>, \<open>RemoveItem\<close> and \<open>Clear\<close> and the setters of the
  flags (\<open>SetActive\<close>, by which the router marks the pane that gets the keys,
  \<open>SetLoading\<close> and \<open>SetShowLineNumbers\<close>) make of a state already reached.
\<close>

inductive reachable :: "BasePaneModel \<Rightarrow> bool" where
  constructed: "reachable (NewBasePaneModel t ty i)"
| performed: "reachable b \<Longrightarrow> reachable (perform opn b)"
| activated: "reachable b \<Longrightarrow> reachable (SetActive a b)"
| loaded: "reachable b \<Longrightarrow> reachable (SetLoading l b)"
| numbered: "reachable b \<Longrightarrow> reachable (SetShowLineNumbers n b)"

datatype Move = Up | Down

fun move :: "Move \<Rightarrow> 'a BasePaneModel_scheme \<Rightarrow> 'a BasePaneModel_scheme" where
  "move Up b = MoveUp b"
| "move Down b = MoveDown b"

fun moves :: "Move list \<Rightarrow> 'a BasePaneModel_scheme \<Rightarrow> 'a BasePaneModel_scheme" where
  "moves [] b = b"
| "moves (mv # mvs) b = moves mvs (move mv b)"

subsection \<open>The list invariant and test fixtures\<close>

text \<open>
  The invariant kept by the list operations: the window is at least one line high; an
  empty list has selection and scroll offset zero; in a non-empty list the selection is
  an index of the list and lies inside the visible window. It says nothing about the
  flags of the pane and holds for any window size.
\<close>

definition list_inv :: "'a BasePaneModel_scheme \<Rightarrow> bool" where
  "list_inv b \<longleftrightarrow>
     1 \<le> maxDisplayItems b \<and>
     (if items b = [] then selectedIndex b = 0 \<and> scrollOffset b = 0
      else 0 \<le> scrollOffset b \<and> scrollOffset b \<le> selectedIndex b
           \<and> selectedIndex b \<le> scrollOffset b + maxDisplayItems b - 1
           \<and> selectedIndex b < len (items b))"


text \<open>An item whose display text and value are both the given name, as for a branch.\<close>

definition item_named :: "string \<Rightarrow> PaneItem" where
  "item_named s = \<lparr> Display = s, Value = s, Icon = [], Type = [], Selected = False, Color = [] \<rparr>"

definition three_items :: BasePaneModel where
  "three_items =
     AddItem (item_named ''C'') (AddItem (item_named ''B'') (AddItem (item_named ''A'')
       (NewBasePaneModel ''Stash'' StashPaneType ''stash'')))"

section \<open>Messages and commands (bubbletea, git package)\<close>

text \<open>
  A \<open>tea.Msg\<close> is an event handed to \<open>Update\<close>. \<open>KeyMsg k\<close> is a key event whose
  \<open>String()\<close> is \<open>k\<close>; \<open>WindowSizeMsg w h\<close> is a resize; \<open>StashUpdateMsg\<close>,
  \<open>ActionCompleteMsg\<close> and \<open>DiffUpdateMsg\<close> are the structs of the git package that the
  stash pane sends or receives; \<open>OtherMsg\<close> stands for every other message type.

  A \<open>tea.Cmd\<close> is a Go closure that yields a message when the runtime runs it; \<open>nil\<close> is
  \<open>None\<close>. \<open>Quit\<close> is \<open>tea.Quit\<close>, \<open>GetStashesCmd\<close> the closure of
  \<open>StashPane.Refresh\<close>, which asks the repository for its stashes, \<open>MsgCmd msg\<close> a closure
  returning the fixed message \<open>msg\<close>, \<open>PaneCmd\<close> a closure of a pane type not modelled
  here, and \<open>BatchCmd\<close> a batch of commands.
\<close>

datatype Msg =
  KeyMsg string | WindowSizeMsg int int | StashUpdateMsg "string list"
  | ActionCompleteMsg string bool string | DiffUpdateMsg string string | OtherMsg

datatype Cmd = Quit | GetStashesCmd | MsgCmd Msg | PaneCmd string | BatchCmd "Cmd list"

text \<open>
  \<open>tea.Batch\<close> is a function of the bubbletea library, which is not part of the
  repository. The router functions take it as the parameter
  \<open>batch :: Cmd list \<Rightarrow> Cmd option\<close>, applied to the non-nil commands collected so far.
  The library returns \<open>nil\<close> for a batch of no commands; the theorems on key routing
  assume \<open>batch [] = None\<close>, and \<open>batch_nil_on_empty\<close> is such a batch.
\<close>

definition batch_nil_on_empty :: "Cmd list \<Rightarrow> Cmd option" where
  "batch_nil_on_empty cmds = (if cmds = [] then None else Some (BatchCmd cmds))"

section \<open>The stash pane (panes package, StashPane)\<close>

text \<open>
  \<open>fmt.Sprintf("%d", i)\<close> for a slice index, \<open>strings.Index\<close> (the byte index of the
  first occurrence, or \<open>-1\<close>) and \<open>strings.HasPrefix\<close> (\<open>prefix\<close>) belong to Go's
  standard library.
\<close>

fun itoa :: "nat \<Rightarrow> string" where
  "itoa n = (if n < 10 then [char_of (48 + n)] else itoa (n div 10) @ [char_of (48 + n mod 10)])"

fun Index :: "string \<Rightarrow> string \<Rightarrow> int" where
  "Index [] substr = (if substr = [] then 0 else - 1)"
| "Index (c # cs) substr =
     (if prefix substr (c # cs) then 0
      else (let r = Index cs substr in if r < 0 then - 1 else r + 1))"

definition StashPane_Refresh :: "'a BasePaneModel_scheme \<Rightarrow> 'a BasePaneModel_scheme \<times> Cmd option" where
  "StashPane_Refresh s = (SetLoading True s, Some GetStashesCmd)"

definition createStash :: "bool \<Rightarrow> Cmd" where
  "createStash includeUntracked =
     (if includeUntracked
      then MsgCmd (ActionCompleteMsg ''create_stash_include_untracked'' True
                     ''Created new stash (including untracked files)'')
      else MsgCmd (ActionCompleteMsg ''create_stash'' True ''Created new stash''))"

definition applyStash :: "string \<Rightarrow> Cmd" where
  "applyStash stashRef = MsgCmd (ActionCompleteMsg ''apply_stash'' True (''Applied stash: '' @ stashRef))"

definition popStash :: "string \<Rightarrow> Cmd" where
  "popStash stashRef = MsgCmd (ActionCompleteMsg ''pop_stash'' True (''Popped stash: '' @ stashRef))"

definition dropStash :: "string \<Rightarrow> Cmd" where
  "dropStash stashRef = MsgCmd (ActionCompleteMsg ''drop_stash'' True (''Dropped stash: '' @ stashRef))"

definition showStash :: "string \<Rightarrow> Cmd" where
  "showStash stashRef = MsgCmd (DiffUpdateMsg ''Stash contents would be shown here'' stashRef)"

definition clearAllStashes :: Cmd where
  "clearAllStashes = MsgCmd (ActionCompleteMsg ''clear_all_stashes'' True ''Cleared all stashes'')"

definition createBranchFromStash :: "string \<Rightarrow> Cmd" where
  "createBranchFromStash stashRef =
     MsgCmd (ActionCompleteMsg ''create_branch_from_stash'' True
               ''Branch creation dialog would appear here'')"

definition StashPane_HandleAction :: "string \<Rightarrow> 'a BasePaneModel_scheme \<Rightarrow> Cmd option" where
  "StashPane_HandleAction action s =
     (let selectedItem = GetSelectedItem s in
      if action = ''create_stash'' then Some (createStash False)
      else if action = ''create_stash_include_untracked'' then Some (createStash True)
      else if action = ''apply_stash'' then map_option (\<lambda>item. applyStash (Value item)) selectedItem
      else if action = ''pop_stash'' then map_option (\<lambda>item. popStash (Value item)) selectedItem
      else if action = ''drop_stash'' then map_option (\<lambda>item. dropStash (Value item)) selectedItem
      else if action = ''show_stash'' then map_option (\<lambda>item. showStash (Value item)) selectedItem
      else if action = ''clear_all_stashes'' then Some clearAllStashes
      else if action = ''create_branch_from_stash''
        then map_option (\<lambda>item. createBranchFromStash (Value item)) selectedItem
      else None)"

text \<open>
  The item that \<open>updateFromStashMsg\<close> builds for the stash line at index \<open>i\<close>.
  \<open>stashPrefix\<close> is the text \<open>stash\<close>, an at sign and an opening brace, with which a
  stash reference begins. The icon is the UTF-8 encoding of U+1F4E6. The slice
  \<open>stashLine[:endIndex+1]\<close> is in range, since \<open>endIndex\<close> is the index of a byte of
  \<open>stashLine\<close>.
\<close>

definition stashPrefix :: string where
  "stashPrefix = ''stash@'' @ ''{''"

definition stashItem :: "nat \<Rightarrow> string \<Rightarrow> PaneItem" where
  "stashItem i stashLine =
     (let stashRef0 = stashPrefix @ itoa i @ ''}'';
          stashRef =
            (if prefix stashPrefix stashLine
             then (let endIndex = Index stashLine ''}''
                   in if endIndex > 0 then take (nat (endIndex + 1)) stashLine else stashRef0)
             else stashRef0)
      in \<lparr> Display = stashLine, Value = stashRef,
           Icon = [char_of (240::nat), char_of (159::nat), char_of (147::nat), char_of (166::nat)],
           Type = ''stash'', Selected = False, Color = [] \<rparr>)"

fun addStashItems :: "nat \<Rightarrow> string list \<Rightarrow> 'a BasePaneModel_scheme \<Rightarrow> 'a BasePaneModel_scheme" where
  "addStashItems i [] s = s"
| "addStashItems i (stashLine # rest) s = addStashItems (i + 1) rest (AddItem (stashItem i stashLine) s)"

definition updateFromStashMsg :: "string list \<Rightarrow> 'a BasePaneModel_scheme \<Rightarrow> 'a BasePaneModel_scheme" where
  "updateFromStashMsg stashes s =
     (let s1 = Clear (SetLoading False s) in
      if len stashes = 0
      then AddItem \<lparr> Display = ''No stashed changes'', Value = [], Icon = [], Type = ''empty'',
                     Selected = False, Color = [] \<rparr> s1
      else addStashItems 0 stashes s1)"

definition StashPane_Update :: "Msg \<Rightarrow> 'a BasePaneModel_scheme \<Rightarrow> 'a BasePaneModel_scheme \<times> Cmd option" where
  "StashPane_Update msg s =
     (case msg of
        KeyMsg k \<Rightarrow>
          if \<not> IsActive s then (s, None)
          else if k = ''j'' \<or> k = ''down'' then (MoveDown s, None)
          else if k = ''k'' \<or> k = ''up'' then (MoveUp s, None)
          else if k = ''g'' then (MoveToTop s, None)
          else if k = ''G'' then (MoveToBottom s, None)
          else if k = ''enter'' then (s, StashPane_HandleAction ''apply_stash'' s)
          else if k = ''p'' then (s, StashPane_HandleAction ''pop_stash'' s)
          else if k = ''d'' then (s, StashPane_HandleAction ''drop_stash'' s)
          else if k = ''s'' then (s, StashPane_HandleAction ''create_stash'' s)
          else if k = ''S'' then (s, StashPane_HandleAction ''create_stash_include_untracked'' s)
          else if k = ''r'' then StashPane_Refresh s
          else if k = ''v'' then (s, StashPane_HandleAction ''show_stash'' s)
          else if k = ''D'' then (s, StashPane_HandleAction ''clear_all_stashes'' s)
          else if k = ''b'' then (s, StashPane_HandleAction ''create_branch_from_stash'' s)
          else (s, None)
      | StashUpdateMsg stashes \<Rightarrow> (updateFromStashMsg stashes s, None)
      | _ \<Rightarrow> (s, None))"

text \<open>
  The items a stash pane holds after a \<open>StashUpdateMsg\<close>, written out: the placeholder when
  there is no stash, one item per stash line otherwise.
\<close>

definition stashItems :: "string list \<Rightarrow> PaneItem list" where
  "stashItems stashes =
     (if stashes = []
      then [\<lparr> Display = ''No stashed changes'', Value = [], Icon = [], Type = ''empty'',
               Selected = False, Color = [] \<rparr>]
      else map (\<lambda>(i, stashLine). stashItem i stashLine) (enumerate 0 stashes))"

text \<open>
  The router holds its panes as values of the interface \<open>Pane\<close> and calls \<open>Update\<close> and
  \<open>Refresh\<close> through it. In the five-pane version of the router the stash pane is the one
  pane built with \<open>paneType = StashPaneType\<close>, and it runs \<open>StashPane.Update\<close>; the
  \<open>Update\<close> methods of the other four pane types are the parameter \<open>other\<close>.
\<close>

definition Pane_Update_diff ::
  "(Msg \<Rightarrow> 'a BasePaneModel_scheme \<Rightarrow> 'a BasePaneModel_scheme \<times> Cmd option)
   \<Rightarrow> Msg \<Rightarrow> 'a BasePaneModel_scheme \<Rightarrow> 'a BasePaneModel_scheme \<times> Cmd option" where
  "Pane_Update_diff other msg p =
     (if paneType p = StashPaneType then StashPane_Update msg p else other msg p)"

section \<open>The application router (app package, Model)\<close>

text \<open>
  The repository holds two versions of the router. Both have the fields of the record
  \<open>Model\<close> below (the pointer to the style table is left out). The five-pane version adds
  the scroll position and lines of a diff view (\<open>Model_diff\<close>); the four-pane version adds
  a details pane and a focus (\<open>Model_details\<close>). Functions whose text is the same in both
  versions are written once, on the record scheme; the others carry the suffix of their
  version.
\<close>

datatype Focus = FocusLeftPanes | FocusDetails

record DetailsPane =
  selectedLine :: int
  scrollPos :: int
  lines :: "string list"

record 'p Model =
  panes :: "'p list"
  activePane :: int
  width :: int
  height :: int
  quitting :: bool
  filterMode :: bool
  filterText :: string

record 'p Model_diff = "'p Model" +
  diffScrollPos :: int
  diffLines :: "string list"

record 'p Model_details = "'p Model" +
  details :: DetailsPane
  focus :: Focus

definition DetailsPane_Reset :: "DetailsPane \<Rightarrow> DetailsPane" where
  "DetailsPane_Reset d = d\<lparr>selectedLine := 0, scrollPos := 0\<rparr>"

definition DetailsPane_MoveDown :: "DetailsPane \<Rightarrow> DetailsPane" where
  "DetailsPane_MoveDown d =
     (if len (lines d) = 0 then d
      else if selectedLine d < len (lines d) - 1 then d\<lparr>selectedLine := selectedLine d + 1\<rparr>
      else d)"

definition DetailsPane_MoveUp :: "DetailsPane \<Rightarrow> DetailsPane" where
  "DetailsPane_MoveUp d = (if selectedLine d > 0 then d\<lparr>selectedLine := selectedLine d - 1\<rparr> else d)"

definition DetailsPane_MoveToTop :: "DetailsPane \<Rightarrow> DetailsPane" where
  "DetailsPane_MoveToTop d = d\<lparr>selectedLine := 0, scrollPos := 0\<rparr>"

definition DetailsPane_MoveToBottom :: "DetailsPane \<Rightarrow> DetailsPane" where
  "DetailsPane_MoveToBottom d =
     (if len (lines d) > 0 then d\<lparr>selectedLine := len (lines d) - 1\<rparr> else d)"

definition DetailsPane_AdjustScroll :: "int \<Rightarrow> DetailsPane \<Rightarrow> DetailsPane" where
  "DetailsPane_AdjustScroll maxLines0 d =
     (let maxLines = (if maxLines0 < 1 then 1 else maxLines0);
          d1 = (if selectedLine d \<ge> scrollPos d + maxLines
                then d\<lparr>scrollPos := selectedLine d - maxLines + 1\<rparr> else d)
      in if selectedLine d1 < scrollPos d1 then d1\<lparr>scrollPos := selectedLine d1\<rparr> else d1)"

definition DetailsPane_ScrollDown :: "int \<Rightarrow> DetailsPane \<Rightarrow> DetailsPane" where
  "DetailsPane_ScrollDown maxLines d =
     (if len (lines d) > 0
      then (let maxScroll0 = len (lines d) - maxLines;
                maxScroll = (if maxScroll0 < 0 then 0 else maxScroll0)
            in if scrollPos d < maxScroll then d\<lparr>scrollPos := scrollPos d + 1\<rparr> else d)
      else d)"

definition DetailsPane_ScrollUp :: "DetailsPane \<Rightarrow> DetailsPane" where
  "DetailsPane_ScrollUp d = (if scrollPos d > 0 then d\<lparr>scrollPos := scrollPos d - 1\<rparr> else d)"

subsection \<open>Choosing the active pane\<close>

text \<open>
  \<open>for i, pane := range m.panes { pane.SetActive(i == index) }\<close>: the panes are pointers,
  each to its own pane, so the loop updates every element of the list in turn.
\<close>

fun setActiveFrom :: "int \<Rightarrow> int \<Rightarrow> 'a BasePaneModel_scheme list \<Rightarrow> 'a BasePaneModel_scheme list" where
  "setActiveFrom i index [] = []"
| "setActiveFrom i index (pane # rest) = SetActive (i = index) pane # setActiveFrom (i + 1) index rest"

definition setActivePane ::
  "int \<Rightarrow> ('a BasePaneModel_scheme, 'z) Model_scheme \<Rightarrow> ('a BasePaneModel_scheme, 'z) Model_scheme" where
  "setActivePane index m =
     (if index \<ge> 0 \<and> index < len (panes m)
      then m\<lparr>activePane := index, panes := setActiveFrom 0 index (panes m)\<rparr>
      else m)"

text \<open>
  Go's \<open>%\<close> truncates towards zero: the remainder has the sign of the dividend. A zero
  divisor panics; \<open>None\<close> is the panic.
\<close>

definition go_rem :: "int \<Rightarrow> int \<Rightarrow> int option" where
  "go_rem a b = (if b = 0 then None else Some (sgn a * (\<bar>a\<bar> mod \<bar>b\<bar>)))"

definition nextPane ::
  "('a BasePaneModel_scheme, 'z) Model_scheme \<Rightarrow> ('a BasePaneModel_scheme, 'z) Model_scheme option" where
  "nextPane m = map_option (\<lambda>index. setActivePane index m) (go_rem (activePane m + 1) (len (panes m)))"

definition prevPane ::
  "('a BasePaneModel_scheme, 'z) Model_scheme \<Rightarrow> ('a BasePaneModel_scheme, 'z) Model_scheme option" where
  "prevPane m =
     map_option (\<lambda>index. setActivePane index m)
       (go_rem (activePane m - 1 + len (panes m)) (len (panes m)))"

datatype PaneCall = CallSetActivePane int | CallNextPane | CallPrevPane

fun call :: "PaneCall \<Rightarrow> ('a BasePaneModel_scheme, 'z) Model_scheme
             \<Rightarrow> ('a BasePaneModel_scheme, 'z) Model_scheme option" where
  "call (CallSetActivePane i) m = Some (setActivePane i m)"
| "call CallNextPane m = nextPane m"
| "call CallPrevPane m = prevPane m"

fun calls :: "PaneCall list \<Rightarrow> ('a BasePaneModel_scheme, 'z) Model_scheme
              \<Rightarrow> ('a BasePaneModel_scheme, 'z) Model_scheme option" where
  "calls [] m = Some m"
| "calls (c # cs) m = (case call c m of None \<Rightarrow> None | Some m' \<Rightarrow> calls cs m')"

text \<open>A call that passes the bounds check of \<open>setActivePane\<close> on a router of \<open>n\<close> panes.\<close>

fun takes_effect :: "int \<Rightarrow> PaneCall \<Rightarrow> bool" where
  "takes_effect n (CallSetActivePane i) = (0 \<le> i \<and> i < n)"
| "takes_effect n CallNextPane = True"
| "takes_effect n CallPrevPane = True"

definition active_indices :: "'a BasePaneModel_scheme list \<Rightarrow> nat list" where
  "active_indices ps = filter (\<lambda>i. active (ps ! i)) [0 ..< length ps]"

text \<open>
  \<open>NewModel\<close> of the five-pane version. The pane constructors read the repository; the
  panes they return are the parameter. \<open>fresh_panes\<close> are five panes as
  \<open>NewBasePaneModel\<close> leaves them, in the order of \<open>NewModel\<close>.
\<close>

definition NewModel_diff :: "'p list \<Rightarrow> 'p Model_diff" where
  "NewModel_diff ps =
     \<lparr> panes = ps, activePane = 1, width = 0, height = 0, quitting = False, filterMode = False,
       filterText = [], diffScrollPos = 0, diffLines = [] \<rparr>"

definition NewModel_details :: "'p list \<Rightarrow> 'p Model_details" where
  "NewModel_details ps =
     \<lparr> panes = ps, activePane = 0, width = 0, height = 0, quitting = False, filterMode = False,
       filterText = [], details = \<lparr> selectedLine = 0, scrollPos = 0, lines = [] \<rparr>,
       focus = FocusLeftPanes \<rparr>"

definition fresh_panes :: "BasePaneModel list" where
  "fresh_panes =
     [NewBasePaneModel ''Status'' StatusPaneType ''status'',
      NewBasePaneModel ''Files'' FilesPaneType ''files'',
      NewBasePaneModel ''Branches'' BranchesPaneType ''branches'',
      NewBasePaneModel ''Commits'' CommitsPaneType ''commits'',
      NewBasePaneModel ''Stash'' StashPaneType ''stash'']"

subsection \<open>Dispatching events\<close>

text \<open>
  The methods \<open>Update\<close> and \<open>Refresh\<close> of the interface \<open>Pane\<close> are the parameters
  \<open>upd\<close> and \<open>rfr\<close>; each returns the pane as the call leaves it and the command, if any.
\<close>

fun refreshPanes :: "('p \<Rightarrow> 'p \<times> Cmd option) \<Rightarrow> 'p list \<Rightarrow> 'p list \<times> Cmd list" where
  "refreshPanes rfr [] = ([], [])"
| "refreshPanes rfr (pane # rest) =
     (let (pane', cmd) = rfr pane; (rest', cmds) = refreshPanes rfr rest
      in (pane' # rest', (case cmd of None \<Rightarrow> cmds | Some c \<Rightarrow> c # cmds)))"

definition refreshAll ::
  "(Cmd list \<Rightarrow> Cmd option) \<Rightarrow> ('p \<Rightarrow> 'p \<times> Cmd option) \<Rightarrow> ('p, 'z) Model_scheme
   \<Rightarrow> ('p, 'z) Model_scheme \<times> Cmd option" where
  "refreshAll batch rfr m =
     (let (ps, cmds) = refreshPanes rfr (panes m) in (m\<lparr>panes := ps\<rparr>, batch cmds))"

text \<open>
  The tail of the key branch of \<open>Update\<close>, the same in both versions: the key goes to
  \<open>m.panes[m.activePane]\<close> when \<open>m.activePane < len(m.panes)\<close>. A negative index passes
  that test and panics at the index expression.
\<close>

definition updateActivePane ::
  "(Cmd list \<Rightarrow> Cmd option) \<Rightarrow> (Msg \<Rightarrow> 'p \<Rightarrow> 'p \<times> Cmd option) \<Rightarrow> Msg \<Rightarrow> ('p, 'z) Model_scheme
   \<Rightarrow> (('p, 'z) Model_scheme \<times> Cmd option) option" where
  "updateActivePane batch upd msg m =
     (if activePane m < len (panes m)
      then (if activePane m < 0 then None
            else (let (updatedPane, cmd) = upd msg (panes m ! nat (activePane m))
                  in Some (m\<lparr>panes := (panes m)[nat (activePane m) := updatedPane]\<rparr>,
                           batch (case cmd of None \<Rightarrow> [] | Some c \<Rightarrow> [c]))))
      else Some (m, batch []))"

text \<open>The default branch of \<open>Update\<close>, the same in both versions: every pane gets the message.\<close>

fun updatePanes :: "(Msg \<Rightarrow> 'p \<Rightarrow> 'p \<times> Cmd option) \<Rightarrow> Msg \<Rightarrow> 'p list \<Rightarrow> 'p list \<times> Cmd list" where
  "updatePanes upd msg [] = ([], [])"
| "updatePanes upd msg (pane # rest) =
     (let (updatedPane, cmd) = upd msg pane; (rest', cmds) = updatePanes upd msg rest
      in (updatedPane # rest', (case cmd of None \<Rightarrow> cmds | Some c \<Rightarrow> c # cmds)))"

definition updateAllPanes ::
  "(Cmd list \<Rightarrow> Cmd option) \<Rightarrow> (Msg \<Rightarrow> 'p \<Rightarrow> 'p \<times> Cmd option) \<Rightarrow> Msg \<Rightarrow> ('p, 'z) Model_scheme
   \<Rightarrow> ('p, 'z) Model_scheme \<times> Cmd option" where
  "updateAllPanes batch upd msg m =
     (let (ps, cmds) = updatePanes upd msg (panes m) in (m\<lparr>panes := ps\<rparr>, batch cmds))"

subsection \<open>The five-pane version\<close>

definition scrollDiffDown :: "('p, 'z) Model_diff_scheme \<Rightarrow> ('p, 'z) Model_diff_scheme" where
  "scrollDiffDown m =
     (if len (diffLines m) > 0
      then (let maxScroll0 = len (diffLines m) - (height m - 5);
                maxScroll = (if maxScroll0 < 0 then 0 else maxScroll0)
            in if diffScrollPos m < maxScroll then m\<lparr>diffScrollPos := diffScrollPos m + 1\<rparr> else m)
      else m)"

definition scrollDiffUp :: "('p, 'z) Model_diff_scheme \<Rightarrow> ('p, 'z) Model_diff_scheme" where
  "scrollDiffUp m = (if diffScrollPos m > 0 then m\<lparr>diffScrollPos := diffScrollPos m - 1\<rparr> else m)"

definition handleKeyMsg_diff ::
  "(Cmd list \<Rightarrow> Cmd option) \<Rightarrow> ('a BasePaneModel_scheme \<Rightarrow> 'a BasePaneModel_scheme \<times> Cmd option)
   \<Rightarrow> string \<Rightarrow> ('a BasePaneModel_scheme, 'z) Model_diff_scheme
   \<Rightarrow> (('a BasePaneModel_scheme, 'z) Model_diff_scheme \<times> Cmd option) option" where
  "handleKeyMsg_diff batch rfr k m =
     (if k = ''q'' \<or> k = ''ctrl+c'' then Some (m\<lparr>quitting := True\<rparr>, Some Quit)
      else if k = ''tab'' then map_option (\<lambda>m'. (m', batch [])) (nextPane m)
      else if k = ''shift+tab'' then map_option (\<lambda>m'. (m', batch [])) (prevPane m)
      else if k = ''1'' then Some (setActivePane 0 m, batch [])
      else if k = ''2'' then Some (setActivePane 1 m, batch [])
      else if k = ''3'' then Some (setActivePane 2 m, batch [])
      else if k = ''4'' then Some (setActivePane 3 m, batch [])
      else if k = ''5'' then Some (setActivePane 4 m, batch [])
      else if k = ''ctrl+r'' then Some (refreshAll batch rfr m)
      else if k = ''?'' then Some (m, batch [])
      else if k = ''j'' \<or> k = ''down''
        then (if activePane m \<noteq> 4 then Some (scrollDiffDown m, batch []) else Some (m, None))
      else if k = ''k'' \<or> k = ''up''
        then (if activePane m \<noteq> 4 then Some (scrollDiffUp m, batch []) else Some (m, None))
      else Some (m, None))"

definition Update_diff ::
  "(Cmd list \<Rightarrow> Cmd option)
   \<Rightarrow> (Msg \<Rightarrow> 'a BasePaneModel_scheme \<Rightarrow> 'a BasePaneModel_scheme \<times> Cmd option)
   \<Rightarrow> ('a BasePaneModel_scheme \<Rightarrow> 'a BasePaneModel_scheme \<times> Cmd option)
   \<Rightarrow> Msg \<Rightarrow> ('a BasePaneModel_scheme, 'z) Model_diff_scheme
   \<Rightarrow> (('a BasePaneModel_scheme, 'z) Model_diff_scheme \<times> Cmd option) option" where
  "Update_diff batch upd rfr msg m =
     (case msg of
        WindowSizeMsg w h \<Rightarrow> Some (m\<lparr>width := w, height := h\<rparr>, None)
      | KeyMsg k \<Rightarrow>
          (case handleKeyMsg_diff batch rfr k m of
             None \<Rightarrow> None
           | Some (m1, cmd) \<Rightarrow>
               if cmd \<noteq> None then Some (m1, cmd)
               else updateActivePane batch upd msg m1)
      | _ \<Rightarrow> Some (updateAllPanes batch upd msg m))"

subsection \<open>The four-pane version\<close>

definition toggleFocus :: "('p, 'z) Model_details_scheme \<Rightarrow> ('p, 'z) Model_details_scheme" where
  "toggleFocus m =
     (if focus m = FocusLeftPanes
      then m\<lparr>focus := FocusDetails, details := DetailsPane_Reset (details m)\<rparr>
      else m\<lparr>focus := FocusLeftPanes\<rparr>)"

definition handlePaneNavigation ::
  "(Cmd list \<Rightarrow> Cmd option) \<Rightarrow> (('p, 'z) Model_details_scheme \<Rightarrow> ('p, 'z) Model_details_scheme option)
   \<Rightarrow> ('p, 'z) Model_details_scheme \<Rightarrow> (('p, 'z) Model_details_scheme \<times> Cmd option) option" where
  "handlePaneNavigation batch navFunc m =
     (if focus m = FocusLeftPanes
      then map_option (\<lambda>m'. (m', batch [])) (navFunc m)
      else Some (m, batch []))"

definition handleVerticalNavigation ::
  "(Cmd list \<Rightarrow> Cmd option) \<Rightarrow> bool \<Rightarrow> ('p, 'z) Model_details_scheme
   \<Rightarrow> ('p, 'z) Model_details_scheme \<times> Cmd option" where
  "handleVerticalNavigation batch down m =
     (if focus m = FocusDetails
      then (let d = (if down then DetailsPane_MoveDown (details m) else DetailsPane_MoveUp (details m))
            in (m\<lparr>details := DetailsPane_AdjustScroll (height m - 5) d\<rparr>, batch []))
      else if activePane m \<noteq> 3
      then (m\<lparr>details := (if down then DetailsPane_ScrollDown (height m - 5) (details m)
                           else DetailsPane_ScrollUp (details m))\<rparr>, batch [])
      else (m, None))"

definition handleJumpToTop ::
  "(Cmd list \<Rightarrow> Cmd option) \<Rightarrow> ('p, 'z) Model_details_scheme \<Rightarrow> ('p, 'z) Model_details_scheme \<times> Cmd option" where
  "handleJumpToTop batch m =
     (if focus m = FocusDetails then (m\<lparr>details := DetailsPane_MoveToTop (details m)\<rparr>, batch [])
      else (m, None))"

definition handleJumpToBottom ::
  "(Cmd list \<Rightarrow> Cmd option) \<Rightarrow> ('p, 'z) Model_details_scheme \<Rightarrow> ('p, 'z) Model_details_scheme \<times> Cmd option" where
  "handleJumpToBottom batch m =
     (if focus m = FocusDetails
      then (m\<lparr>details := DetailsPane_AdjustScroll (height m - 5) (DetailsPane_MoveToBottom (details m))\<rparr>,
            batch [])
      else (m, None))"

definition handleKeyMsg_details ::
  "(Cmd list \<Rightarrow> Cmd option) \<Rightarrow> ('a BasePaneModel_scheme \<Rightarrow> 'a BasePaneModel_scheme \<times> Cmd option)
   \<Rightarrow> string \<Rightarrow> ('a BasePaneModel_scheme, 'z) Model_details_scheme
   \<Rightarrow> (('a BasePaneModel_scheme, 'z) Model_details_scheme \<times> Cmd option) option" where
  "handleKeyMsg_details batch rfr k m =
     (if k = ''q'' \<or> k = ''ctrl+c'' then Some (m\<lparr>quitting := True\<rparr>, Some Quit)
      else if k = ''tab'' then handlePaneNavigation batch nextPane m
      else if k = ''shift+tab'' then handlePaneNavigation batch prevPane m
      else if k = ''1'' then handlePaneNavigation batch (\<lambda>m. Some (setActivePane 0 m)) m
      else if k = ''2'' then handlePaneNavigation batch (\<lambda>m. Some (setActivePane 1 m)) m
      else if k = ''3'' then handlePaneNavigation batch (\<lambda>m. Some (setActivePane 2 m)) m
      else if k = ''4'' then handlePaneNavigation batch (\<lambda>m. Some (setActivePane 3 m)) m
      else if k = ''ctrl+r'' then Some (refreshAll batch rfr m)
      else if k = ''?'' then Some (m, batch [])
      else if k = ''j'' \<or> k = ''down'' then Some (handleVerticalNavigation batch True m)
      else if k = ''k'' \<or> k = ''up'' then Some (handleVerticalNavigation batch False m)
      else if k = ''g'' then Some (handleJumpToTop batch m)
      else if k = ''G'' then Some (handleJumpToBottom batch m)
      else Some (m, None))"

definition Update_details ::
  "(Cmd list \<Rightarrow> Cmd option)
   \<Rightarrow> (Msg \<Rightarrow> 'a BasePaneModel_scheme \<Rightarrow> 'a BasePaneModel_scheme \<times> Cmd option)
   \<Rightarrow> ('a BasePaneModel_scheme \<Rightarrow> 'a BasePaneModel_scheme \<times> Cmd option)
   \<Rightarrow> Msg \<Rightarrow> ('a BasePaneModel_scheme, 'z) Model_details_scheme
   \<Rightarrow> (('a BasePaneModel_scheme, 'z) Model_details_scheme \<times> Cmd option) option" where
  "Update_details batch upd rfr msg m =
     (case msg of
        WindowSizeMsg w h \<Rightarrow> Some (m\<lparr>width := w, height := h\<rparr>, None)
      | KeyMsg k \<Rightarrow>
          if k = '' '' then Some (toggleFocus m, None)
          else
            (case handleKeyMsg_details batch rfr k m of
               None \<Rightarrow> None
             | Some (m1, cmd) \<Rightarrow>
                 if cmd \<noteq> None then Some (m1, cmd)
                 else if focus m1 = FocusDetails then Some (m1, None)
                 else updateActivePane batch upd msg m1)
      | _ \<Rightarrow> Some (updateAllPanes batch upd msg m))"

text \<open>
  The keys at which \<open>Update\<close> returns a command of its own (space toggles the focus
  before \<open>handleKeyMsg\<close> is called, in the four-pane version), and the keys whose case in
  \<open>handleKeyMsg\<close> switches the active pane, in each version.
\<close>

definition returning_keys :: "string list" where
  "returning_keys = ['' '', ''q'', ''ctrl+c'', ''ctrl+r'']"

definition switching_keys_details :: "string list" where
  "switching_keys_details = [''tab'', ''shift+tab'', ''1'', ''2'', ''3'', ''4'']"

definition switching_keys_diff :: "string list" where
  "switching_keys_diff = [''tab'', ''shift+tab'', ''1'', ''2'', ''3'', ''4'', ''5'']"

text \<open>
  A pane handler that records that it ran, by raising the loading flag of the pane it is
  called on, and a refresh that does nothing: stand-ins for an implementation of
  \<open>Pane\<close>, with which a test can see whether the router called the handler.
\<close>

definition recording_Update :: "Msg \<Rightarrow> 'a BasePaneModel_scheme \<Rightarrow> 'a BasePaneModel_scheme \<times> Cmd option" where
  "recording_Update msg p = (SetLoading True p, None)"

definition idle_Refresh :: "'a BasePaneModel_scheme \<Rightarrow> 'a BasePaneModel_scheme \<times> Cmd option" where
  "idle_Refresh p = (p, None)"

text \<open>
  A four-pane router as it is once the first render has flagged its active pane, with a
  terminal of 80 by 24 cells and focus on the panes.
\<close>

definition four_pane_router :: "BasePaneModel Model_details" where
  "four_pane_router =
     (setActivePane 0 (NewModel_details
        [NewBasePaneModel ''Workspace'' StatusPaneType ''workspace'',
         NewBasePaneModel ''Packages'' BranchesPaneType ''packages'',
         NewBasePaneModel ''Pull Requests'' CommitsPaneType ''pullrequests'',
         NewBasePaneModel ''Greeting'' StashPaneType ''greeting'']))\<lparr>width := 80, height := 24\<rparr>"

text \<open>A router of \<open>n\<close> panes whose active index is one of them.\<close>

definition router_ok :: "int \<Rightarrow> ('a BasePaneModel_scheme, 'z) Model_scheme \<Rightarrow> bool" where
  "router_ok n m \<longleftrightarrow> len (panes m) = n \<and> 0 \<le> activePane m \<and> activePane m < n"

text \<open>
  A five-pane router with the stash pane active, as after the key \<open>5\<close>, on a terminal of
  80 by 24 cells; a line of \<open>git stash list\<close>; and a pane handler for the four other
  pane types that ignores every message.
\<close>

definition five_pane_router :: "BasePaneModel Model_diff" where
  "five_pane_router = (setActivePane 4 (NewModel_diff fresh_panes))\<lparr>width := 80, height := 24\<rparr>"

definition wip_stash :: string where
  "wip_stash = stashPrefix @ ''0}: On main: wip''"

definition ignoring_Update :: "Msg \<Rightarrow> 'a BasePaneModel_scheme \<Rightarrow> 'a BasePaneModel_scheme \<times> Cmd option" where
  "ignoring_Update msg p = (p, None)"

section \<open>Properties of the pane list model\<close>

subsection \<open>The invariant is kept by every operation\<close>

lemma list_inv_New: "list_inv (NewBasePaneModel t ty i)"
  by (simp add: list_inv_def NewBasePaneModel_def)

lemma list_inv_adjust:
  assumes "1 \<le> maxDisplayItems b" "0 \<le> scrollOffset b" "0 \<le> selectedIndex b"
    and "items b \<noteq> []" "selectedIndex b < len (items b)"
  shows "list_inv (adjustScrollOffset b)"
  using assms by (auto simp: list_inv_def adjustScrollOffset_def len_def Let_def)

lemma list_inv_nonempty:
  assumes "list_inv b" "items b \<noteq> []"
  shows "1 \<le> maxDisplayItems b" "0 \<le> scrollOffset b" "0 \<le> selectedIndex b"
    "selectedIndex b < len (items b)"
  using assms by (auto simp: list_inv_def)

lemma list_inv_MoveUp:
  assumes "list_inv b" shows "list_inv (MoveUp b)"
proof (cases "items b = []")
  case True
  then show ?thesis using assms by (simp add: MoveUp_def len_def)
next
  case False
  note f = list_inv_nonempty [OF assms False]
  show ?thesis
  proof (cases "selectedIndex b > 0")
    case True
    have "list_inv (adjustScrollOffset (b\<lparr>selectedIndex := selectedIndex b - 1\<rparr>))"
      using f False True by (intro list_inv_adjust) simp_all
    then show ?thesis using False True by (simp add: MoveUp_def len_def)
  next
    case F2: False
    have "list_inv (adjustScrollOffset (b\<lparr>selectedIndex := len (items b) - 1\<rparr>))"
      using f False by (intro list_inv_adjust) (simp_all add: len_def)
    then show ?thesis using False F2 by (simp add: MoveUp_def len_def)
  qed
qed

lemma list_inv_MoveDown:
  assumes "list_inv b" shows "list_inv (MoveDown b)"
proof (cases "items b = []")
  case True
  then show ?thesis using assms by (simp add: MoveDown_def len_def)
next
  case False
  note f = list_inv_nonempty [OF assms False]
  show ?thesis
  proof (cases "selectedIndex b < len (items b) - 1")
    case True
    have "list_inv (adjustScrollOffset (b\<lparr>selectedIndex := selectedIndex b + 1\<rparr>))"
      using f False True by (intro list_inv_adjust) simp_all
    then show ?thesis using False True by (simp add: MoveDown_def len_def)
  next
    case F2: False
    have "list_inv (adjustScrollOffset (b\<lparr>selectedIndex := 0\<rparr>))"
      using f False by (intro list_inv_adjust) (simp_all add: len_def)
    then show ?thesis using False F2 by (simp add: MoveDown_def len_def)
  qed
qed

lemma list_inv_MoveToTop: "list_inv b \<Longrightarrow> list_inv (MoveToTop b)"
  by (auto simp: list_inv_def MoveToTop_def len_def split: if_splits)

lemma list_inv_MoveToBottom:
  assumes "list_inv b" shows "list_inv (MoveToBottom b)"
proof (cases "items b = []")
  case True
  then show ?thesis using assms by (simp add: MoveToBottom_def len_def)
next
  case False
  note f = list_inv_nonempty [OF assms False]
  have "list_inv (adjustScrollOffset (b\<lparr>selectedIndex := len (items b) - 1\<rparr>))"
    using f False by (intro list_inv_adjust) (simp_all add: len_def)
  then show ?thesis using False by (simp add: MoveToBottom_def len_def)
qed

lemma list_inv_SelectItem:
  assumes "list_inv b" shows "list_inv (SelectItem i b)"
proof (cases "i \<ge> 0 \<and> i < len (items b)")
  case True
  then have ne: "items b \<noteq> []" by (auto simp: len_def)
  note f = list_inv_nonempty [OF assms ne]
  have "list_inv (adjustScrollOffset (b\<lparr>selectedIndex := i\<rparr>))"
    using f ne True by (intro list_inv_adjust) simp_all
  then show ?thesis using True by (simp add: SelectItem_def)
next
  case False
  then show ?thesis using assms by (auto simp add: SelectItem_def)
qed

lemma list_inv_Clear: "list_inv b \<Longrightarrow> list_inv (Clear b)"
  by (auto simp: list_inv_def Clear_def)

lemma list_inv_AddItem: "list_inv b \<Longrightarrow> list_inv (AddItem x b)"
  by (auto simp: list_inv_def AddItem_def len_def split: if_splits)

lemma list_inv_RemoveItem:
  assumes "list_inv b" shows "list_inv (RemoveItem i b)"
proof (cases "i \<ge> 0 \<and> i < len (items b)")
  case False
  then show ?thesis using assms by (auto simp add: RemoveItem_def)
next
  case True
  then have ne: "items b \<noteq> []" by (auto simp: len_def)
  note f = list_inv_nonempty [OF assms ne]
  define rest where "rest = take (nat i) (items b) @ drop (nat (i + 1)) (items b)"
  have lr: "len rest = len (items b) - 1"
    using True by (auto simp: rest_def len_def)
  show ?thesis
  proof (cases "rest = []")
    case True
    then have "selectedIndex b = 0" using lr f by (simp add: len_def)
    then have "RemoveItem i b = b\<lparr>items := [], scrollOffset := 0\<rparr>"
      using \<open>i \<ge> 0 \<and> i < len (items b)\<close> True
      by (simp add: RemoveItem_def Let_def rest_def [symmetric] adjustScrollOffset_def len_def)
    then show ?thesis using f \<open>selectedIndex b = 0\<close> by (simp add: list_inv_def)
  next
    case False
    then have pos: "len rest > 0" by (simp add: len_def)
    show ?thesis
    proof (cases "selectedIndex b \<ge> len rest")
      case True
      have "list_inv (adjustScrollOffset (b\<lparr>items := rest, selectedIndex := len rest - 1\<rparr>))"
        using f False pos by (intro list_inv_adjust) simp_all
      then show ?thesis using True pos \<open>i \<ge> 0 \<and> i < len (items b)\<close>
        by (simp add: RemoveItem_def Let_def rest_def [symmetric])
    next
      case F3: False
      have "list_inv (adjustScrollOffset (b\<lparr>items := rest\<rparr>))"
        using f False F3 by (intro list_inv_adjust) simp_all
      then show ?thesis using F3 pos \<open>i \<ge> 0 \<and> i < len (items b)\<close>
        by (simp add: RemoveItem_def Let_def rest_def [symmetric])
    qed
  qed
qed

lemma list_inv_perform: "list_inv b \<Longrightarrow> list_inv (perform opn b)"
  by (cases opn) (simp_all add: list_inv_MoveUp list_inv_MoveDown list_inv_MoveToTop
      list_inv_MoveToBottom list_inv_SelectItem list_inv_Clear list_inv_AddItem list_inv_RemoveItem)

lemma list_inv_flags:
  "list_inv (SetActive a b) = list_inv b" "list_inv (SetLoading l b) = list_inv b"
  "list_inv (SetShowLineNumbers n b) = list_inv b"
  by (simp_all add: list_inv_def SetActive_def SetLoading_def SetShowLineNumbers_def)

lemma reachable_list_inv: "reachable b \<Longrightarrow> list_inv b"
  by (induction rule: reachable.induct) (simp_all add: list_inv_New list_inv_perform list_inv_flags)

lemma list_inv_if_reachable: "reachable b \<or> list_inv b \<Longrightarrow> list_inv b"
  using reachable_list_inv by blast


lemma selectedIndex_adjust [simp]: "selectedIndex (adjustScrollOffset b) = selectedIndex b"
  by (simp add: adjustScrollOffset_def Let_def)

lemma items_adjust [simp]: "items (adjustScrollOffset b) = items b"
  by (simp add: adjustScrollOffset_def Let_def)

lemma reachable_three_items: "reachable three_items"
proof -
  have e: "three_items =
      perform (OpAddItem (item_named ''C'')) (perform (OpAddItem (item_named ''B''))
        (perform (OpAddItem (item_named ''A'')) (NewBasePaneModel ''Stash'' StashPaneType ''stash'')))"
    by (simp add: three_items_def)
  have r: "reachable (perform (OpAddItem (item_named ''C'')) (perform (OpAddItem (item_named ''B''))
        (perform (OpAddItem (item_named ''A'')) (NewBasePaneModel ''Stash'' StashPaneType ''stash''))))"
    by (intro reachable.intros)
  show ?thesis unfolding e by (rule r)
qed

lemma three_items_fields:
  "items three_items = [item_named ''A'', item_named ''B'', item_named ''C'']"
  "selectedIndex three_items = 0" "scrollOffset three_items = 0" "maxDisplayItems three_items = 50"
  by (simp_all add: three_items_def AddItem_def NewBasePaneModel_def)

lemma reachable_active_three_items: "reachable (SetActive True three_items)"
  by (rule reachable.activated [OF reachable_three_items])

lemma active_three_items_fields:
  "items (SetActive True three_items) = [item_named ''A'', item_named ''B'', item_named ''C'']"
  "selectedIndex (SetActive True three_items) = 0" "scrollOffset (SetActive True three_items) = 0"
  "maxDisplayItems (SetActive True three_items) = 50" "active (SetActive True three_items)"
  by (simp_all add: SetActive_def three_items_fields)




subsection \<open>Moving the selection\<close>

lemma move_keeps:
  assumes "items b \<noteq> []" "0 \<le> selectedIndex b" "selectedIndex b < len (items b)"
  shows "items (move mv b) = items b \<and> 0 \<le> selectedIndex (move mv b)
         \<and> selectedIndex (move mv b) < len (items b)"
  using assms by (cases mv) (auto simp: MoveUp_def MoveDown_def adjustScrollOffset_def len_def Let_def)

lemma moves_keep:
  assumes "items b \<noteq> []" "0 \<le> selectedIndex b" "selectedIndex b < len (items b)"
  shows "items (moves mvs b) = items b \<and> 0 \<le> selectedIndex (moves mvs b)
         \<and> selectedIndex (moves mvs b) < len (items b)"
  using assms
proof (induction mvs arbitrary: b)
  case Nil
  then show ?case by simp
next
  case (Cons mv mvs)
  from move_keeps [OF Cons.prems, of mv]
  have a: "items (move mv b) = items b" "0 \<le> selectedIndex (move mv b)"
     "selectedIndex (move mv b) < len (items (move mv b))" by simp_all
  have b: "items (move mv b) \<noteq> []" using a Cons.prems by simp
  from Cons.IH [OF b a(2) a(3)] a(1) show ?case by simp
qed



text \<open>
  Claim C2. On a list of length \<open>N > 0\<close> whose selection is an index of the list, every
  sequence of MoveDown and MoveUp calls leaves the items as they are and keeps
  \<open>selectedIndex\<close> in \<open>[0, N-1]\<close>; MoveDown goes from \<open>i\<close> to \<open>(i + 1) mod N\<close> and
  MoveUp to \<open>(i - 1) mod N\<close>, so MoveDown at \<open>N - 1\<close> wraps to \<open>0\<close> and MoveUp at
  \<open>0\<close> wraps to \<open>N - 1\<close>; on an empty list both calls change nothing.
\<close>

theorem C2_move_wraparound:
  "(items b \<noteq> [] \<and> 0 \<le> selectedIndex b \<and> selectedIndex b < len (items b) \<longrightarrow>
      items (moves mvs b) = items b
      \<and> 0 \<le> selectedIndex (moves mvs b) \<and> selectedIndex (moves mvs b) \<le> len (items b) - 1
      \<and> selectedIndex (MoveDown b) = (selectedIndex b + 1) mod len (items b)
      \<and> selectedIndex (MoveUp b) = (selectedIndex b - 1) mod len (items b))
   \<and> (items b \<noteq> [] \<and> selectedIndex b = len (items b) - 1 \<longrightarrow> selectedIndex (MoveDown b) = 0)
   \<and> (items b \<noteq> [] \<and> selectedIndex b = 0 \<longrightarrow> selectedIndex (MoveUp b) = len (items b) - 1)
   \<and> (items b = [] \<longrightarrow> MoveDown b = b \<and> MoveUp b = b)"
proof (intro conjI impI)
  assume a: "items b \<noteq> [] \<and> 0 \<le> selectedIndex b \<and> selectedIndex b < len (items b)"
  from moves_keep [of b mvs] a
  show "items (moves mvs b) = items b" "0 \<le> selectedIndex (moves mvs b)"
    "selectedIndex (moves mvs b) \<le> len (items b) - 1" by simp_all
  show "selectedIndex (MoveDown b) = (selectedIndex b + 1) mod len (items b)"
  proof (cases "selectedIndex b < len (items b) - 1")
    case True
    then show ?thesis using a by (simp add: MoveDown_def len_def)
  next
    case False
    then have "selectedIndex b + 1 = len (items b)" using a by simp
    then show ?thesis using a False by (simp add: MoveDown_def len_def)
  qed
  show "selectedIndex (MoveUp b) = (selectedIndex b - 1) mod len (items b)"
  proof (cases "selectedIndex b > 0")
    case True
    then show ?thesis using a by (simp add: MoveUp_def len_def)
  next
    case False
    then have z: "selectedIndex b = 0" using a by simp
    have "(- 1) mod len (items b) = len (items b) - 1"
      using a by (simp add: len_def zmod_minus1)
    then show ?thesis using a z by (simp add: MoveUp_def len_def)
  qed
next
  assume "items b \<noteq> [] \<and> selectedIndex b = len (items b) - 1"
  then show "selectedIndex (MoveDown b) = 0"
    by (simp add: MoveDown_def len_def)
next
  assume "items b \<noteq> [] \<and> selectedIndex b = 0"
  then show "selectedIndex (MoveUp b) = len (items b) - 1"
    by (simp add: MoveUp_def len_def)
next
  assume "items b = []"
  then show "MoveDown b = b" "MoveUp b = b"
    by (simp_all add: MoveDown_def MoveUp_def len_def)
qed

theorem C2_move_wraparound_witness:
  "items three_items \<noteq> [] \<and> 0 \<le> selectedIndex three_items
   \<and> selectedIndex three_items < len (items three_items)
   \<and> selectedIndex (moves [Down, Down, Down, Up] three_items) \<le> len (items three_items) - 1
   \<and> selectedIndex three_items = 0
   \<and> selectedIndex (MoveUp three_items) = len (items three_items) - 1
   \<and> selectedIndex (SelectItem 2 three_items) = len (items (SelectItem 2 three_items)) - 1
   \<and> selectedIndex (MoveDown (SelectItem 2 three_items)) = 0
   \<and> items (NewBasePaneModel ''Stash'' StashPaneType ''stash'') = []
   \<and> MoveDown (NewBasePaneModel ''Stash'' StashPaneType ''stash'')
       = NewBasePaneModel ''Stash'' StashPaneType ''stash''"
proof -
  have h1: "items three_items \<noteq> [] \<and> 0 \<le> selectedIndex three_items
       \<and> selectedIndex three_items < len (items three_items)"
    by (simp add: three_items_fields len_def)
  have h2: "items (SelectItem 2 three_items) \<noteq> []
       \<and> selectedIndex (SelectItem 2 three_items) = len (items (SelectItem 2 three_items)) - 1"
    by (simp add: SelectItem_def three_items_fields len_def)
  have h3: "items three_items \<noteq> [] \<and> selectedIndex three_items = 0"
    by (simp add: three_items_fields)
  have h4: "items (NewBasePaneModel ''Stash'' StashPaneType ''stash'') = []"
    by (simp add: NewBasePaneModel_def)
  from C2_move_wraparound [of three_items "[Down, Down, Down, Up]"] h1 h3
  have c1: "selectedIndex (moves [Down, Down, Down, Up] three_items) \<le> len (items three_items) - 1"
    and c3: "selectedIndex (MoveUp three_items) = len (items three_items) - 1"
    by blast+
  from C2_move_wraparound [of "SelectItem 2 three_items" "[]"] h2
  have c2: "selectedIndex (MoveDown (SelectItem 2 three_items)) = 0" by blast
  from C2_move_wraparound [of "NewBasePaneModel ''Stash'' StashPaneType ''stash''" "[]"] h4
  have c4: "MoveDown (NewBasePaneModel ''Stash'' StashPaneType ''stash'')
       = NewBasePaneModel ''Stash'' StashPaneType ''stash''" by blast
  from h1 h2 h3 h4 c1 c2 c3 c4 show ?thesis by blast
qed

text \<open>
  Claim C3. From the items \<open>[A, B, C, D, E]\<close> with \<open>maxDisplayItems = 3\<close>,
  \<open>selectedIndex = 0\<close> and \<open>scrollOffset = 0\<close>, four calls of MoveDown give
  \<open>selectedIndex = 4\<close> and \<open>scrollOffset = 2\<close>, and the visible window is then
  exactly \<open>[C, D, E]\<close>.
\<close>

theorem C3_move_down_scenario:
  "let b0 = b\<lparr>items := [A, B, C, D, E], maxDisplayItems := 3, selectedIndex := 0, scrollOffset := 0\<rparr>;
       b4 = MoveDown (MoveDown (MoveDown (MoveDown b0)))
   in selectedIndex b4 = 4 \<and> scrollOffset b4 = 2 \<and> items b4 = [A, B, C, D, E]
      \<and> GetVisibleItems b4 = Some [C, D, E]"
proof -
  define b0 where "b0 = b\<lparr>items := [A, B, C, D, E], maxDisplayItems := 3, selectedIndex := 0, scrollOffset := 0\<rparr>"
  have s1: "MoveDown b0 = b0\<lparr>selectedIndex := 1\<rparr>"
    by (simp add: b0_def MoveDown_def adjustScrollOffset_def len_def)
  have s2: "MoveDown (b0\<lparr>selectedIndex := 1\<rparr>) = b0\<lparr>selectedIndex := 2\<rparr>"
    by (simp add: b0_def MoveDown_def adjustScrollOffset_def len_def)
  have s3: "MoveDown (b0\<lparr>selectedIndex := 2\<rparr>) = b0\<lparr>selectedIndex := 3, scrollOffset := 1\<rparr>"
    by (simp add: b0_def MoveDown_def adjustScrollOffset_def len_def)
  have s4: "MoveDown (b0\<lparr>selectedIndex := 3, scrollOffset := 1\<rparr>) = b0\<lparr>selectedIndex := 4, scrollOffset := 2\<rparr>"
    by (simp add: b0_def MoveDown_def adjustScrollOffset_def len_def)
  have v: "GetVisibleItems (b0\<lparr>selectedIndex := 4, scrollOffset := 2\<rparr>) = Some [C, D, E]"
    by (simp add: b0_def GetVisibleItems_def slice_def len_def)
  show ?thesis
    unfolding Let_def b0_def [symmetric] s1 s2 s3 s4 v by (simp add: b0_def)
qed

subsection \<open>Filtering\<close>

lemma Contains_iff: "Contains s substr \<longleftrightarrow> (\<exists>ps ss. s = ps @ substr @ ss)"
proof (induction s)
  case Nil
  then show ?case by auto
next
  case (Cons c cs)
  show ?case
  proof
    assume "Contains (c # cs) substr"
    then consider "prefix substr (c # cs)" | "Contains cs substr" by auto
    then show "\<exists>ps ss. c # cs = ps @ substr @ ss"
    proof cases
      case 1
      then obtain ss where "c # cs = substr @ ss" by (auto simp: prefix_def)
      then have "c # cs = [] @ substr @ ss" by simp
      then show ?thesis by blast
    next
      case 2
      then obtain ps ss where "cs = ps @ substr @ ss" using Cons.IH by blast
      then have "c # cs = (c # ps) @ substr @ ss" by simp
      then show ?thesis by blast
    qed
  next
    assume "\<exists>ps ss. c # cs = ps @ substr @ ss"
    then obtain ps ss where e: "c # cs = ps @ substr @ ss" by blast
    show "Contains (c # cs) substr"
    proof (cases ps)
      case Nil
      then have "prefix substr (c # cs)" using e by (simp add: prefix_def)
      then show ?thesis by simp
    next
      case (Cons p ps')
      then have "cs = ps' @ substr @ ss" using e by simp
      then have "Contains cs substr" using Cons.IH by blast
      then show ?thesis by simp
    qed
  qed
qed

lemma pairs_fold: "list_all (\<lambda>p. toLowerByte (fst p) = snd p \<and> toLowerByte (snd p) = snd p) letter_pairs"
  by (simp add: letter_pairs_def toLowerByte_def char_of_def bit_0)

lemma upper_range: "list_all (\<lambda>n. (char_of n, char_of (n + 32)) \<in> set letter_pairs) [65 ..< 91]"
  by (simp add: letter_pairs_def char_of_def upt_rec bit_0)


lemma fold_pair: "(u, l) \<in> set letter_pairs \<Longrightarrow> toLowerByte u = l \<and> toLowerByte l = l"
proof -
  assume "(u, l) \<in> set letter_pairs"
  with pairs_fold have "toLowerByte (fst (u, l)) = snd (u, l) \<and> toLowerByte (snd (u, l)) = snd (u, l)"
    unfolding list_all_iff by (rule bspec)
  then show ?thesis by simp
qed

lemma fold_upper:
  assumes "65 \<le> (of_char c :: nat)" "(of_char c :: nat) \<le> 90"
  shows "(c, toLowerByte c) \<in> set letter_pairs"
proof -
  have "(of_char c :: nat) \<in> {65 ..< 91}" using assms by simp
  then have "(of_char c :: nat) \<in> set [65 ..< 91]" by (simp only: set_upt)
  with upper_range
  have "(char_of (of_char c :: nat), char_of ((of_char c :: nat) + 32)) \<in> set letter_pairs"
    unfolding list_all_iff by (rule bspec)
  then show ?thesis using assms by (simp add: toLowerByte_def)
qed

lemma fold_other:
  assumes "\<not> (65 \<le> (of_char c :: nat) \<and> (of_char c :: nat) \<le> 90)"
  shows "toLowerByte c = c"
  using assms by (auto simp: toLowerByte_def Let_def)

lemma fold_upper_inj:
  assumes "65 \<le> (of_char a :: nat)" "(of_char a :: nat) \<le> 90"
    and "65 \<le> (of_char b :: nat)" "(of_char b :: nat) \<le> 90"
    and "toLowerByte a = toLowerByte b"
  shows "a = b"
proof -
  from assms have "char_of ((of_char a :: nat) + 32) = (char_of ((of_char b :: nat) + 32) :: char)"
    by (simp add: toLowerByte_def)
  then have "(of_char (char_of ((of_char a :: nat) + 32) :: char) :: nat)
      = of_char (char_of ((of_char b :: nat) + 32) :: char)" by simp
  then have "((of_char a :: nat) + 32) mod 256 = ((of_char b :: nat) + 32) mod 256"
    by (simp only: of_char_of)
  with assms(2,4) have "(of_char a :: nat) = of_char b" by simp
  then show ?thesis by simp
qed

lemma same_letter_iff: "same_letter a b \<longleftrightarrow> toLowerByte a = toLowerByte b"
proof
  assume "same_letter a b"
  then consider "a = b" | "(a, b) \<in> set letter_pairs" | "(b, a) \<in> set letter_pairs"
    unfolding same_letter_def by blast
  then show "toLowerByte a = toLowerByte b"
  proof cases
    case 1
    then show ?thesis by simp
  next
    case 2
    from fold_pair [OF this] show ?thesis by simp
  next
    case 3
    from fold_pair [OF this] show ?thesis by simp
  qed
next
  assume e: "toLowerByte a = toLowerByte b"
  let ?up = "\<lambda>c. 65 \<le> (of_char c :: nat) \<and> (of_char c :: nat) \<le> 90"
  show "same_letter a b"
  proof (cases "?up a")
    case ua: True
    then have pa: "(a, toLowerByte a) \<in> set letter_pairs" by (intro fold_upper) blast+
    show ?thesis
    proof (cases "?up b")
      case True
      have "a = b"
        by (rule fold_upper_inj [OF conjunct1 [OF ua] conjunct2 [OF ua]
              conjunct1 [OF True] conjunct2 [OF True] e])
      then show ?thesis unfolding same_letter_def by (rule disjI1)
    next
      case False
      then have tb: "toLowerByte b = b" by (rule fold_other)
      have "toLowerByte a = b" by (rule trans [OF e tb])
      then have "(a, b) \<in> set letter_pairs" using pa by (rule subst)
      then show ?thesis unfolding same_letter_def by blast
    qed
  next
    case False
    then have ta: "toLowerByte a = a" by (rule fold_other)
    show ?thesis
    proof (cases "?up b")
      case True
      then have pb: "(b, toLowerByte b) \<in> set letter_pairs" by (intro fold_upper) blast+
      have "toLowerByte b = a" by (rule trans [OF e [symmetric] ta])
      then have "(b, a) \<in> set letter_pairs" using pb by (rule subst)
      then show ?thesis unfolding same_letter_def by blast
    next
      case F2: False
      then have tb: "toLowerByte b = b" by (rule fold_other)
      have "a = b" by (rule trans [OF ta [symmetric] trans [OF e tb]])
      then show ?thesis unfolding same_letter_def by (rule disjI1)
    qed
  qed
qed

lemma same_ignoring_case_iff: "same_ignoring_case u v \<longleftrightarrow> map toLowerByte u = map toLowerByte v"
  unfolding same_ignoring_case_def
  by (induction u arbitrary: v) (auto simp: list_all2_Cons1 same_letter_iff)

lemma contains_case_insensitively_iff:
  "contains_case_insensitively s query \<longleftrightarrow> Contains (map toLowerByte s) (map toLowerByte query)"
proof
  assume "Contains (map toLowerByte s) (map toLowerByte query)"
  then obtain ps ss where e: "map toLowerByte s = ps @ map toLowerByte query @ ss"
    unfolding Contains_iff by blast
  define run where "run = take (length query) (drop (length ps) s)"
  have "drop (length ps) s = run @ drop (length query) (drop (length ps) s)"
    unfolding run_def by (rule append_take_drop_id [symmetric])
  then have "take (length ps) s @ run @ drop (length query) (drop (length ps) s) = s"
    by (simp only: append_take_drop_id flip: append_assoc)
  then have s: "s = take (length ps) s @ run @ drop (length query) (drop (length ps) s)"
    by (rule sym)
  have "map toLowerByte run = take (length query) (drop (length ps) (map toLowerByte s))"
    by (simp add: run_def take_map drop_map)
  also have "\<dots> = map toLowerByte query"
    unfolding e by simp
  finally have "same_ignoring_case run query" by (simp add: same_ignoring_case_iff)
  with s show "contains_case_insensitively s query"
    unfolding contains_case_insensitively_def by blast
next
  assume "contains_case_insensitively s query"
  then obtain before run after where "s = before @ run @ after"
      "map toLowerByte run = map toLowerByte query"
    unfolding contains_case_insensitively_def same_ignoring_case_iff by blast
  then have "map toLowerByte s = map toLowerByte before @ map toLowerByte query @ map toLowerByte after"
    by simp
  then show "Contains (map toLowerByte s) (map toLowerByte query)"
    unfolding Contains_iff by blast
qed

lemma containsIgnoreCase_ascii:
  assumes "isASCII s" "isASCII query"
  shows "containsIgnoreCase unicodeLower s query \<longleftrightarrow> contains_case_insensitively s query"
  using assms by (simp add: containsIgnoreCase_def ToLower_def contains_case_insensitively_iff)

lemma foldl_append_filter:
  "foldl (\<lambda>acc x. if P x then acc @ [x] else acc) acc xs = acc @ filter P xs"
  by (induction xs arbitrary: acc) simp_all

lemma Filter_is_filter:
  "Filter unicodeLower query b =
     filter (\<lambda>item. containsIgnoreCase unicodeLower (Display item) query
                    \<or> containsIgnoreCase unicodeLower (Value item) query) (items b)"
proof (cases "query = []")
  case True
  have "Contains t []" for t by (cases t) simp_all
  then show ?thesis using True
    by (simp add: Filter_def containsIgnoreCase_def ToLower_def isASCII_def)
next
  case False
  then show ?thesis by (simp add: Filter_def foldl_append_filter)
qed

lemma isASCII_names:
  "isASCII ''FEAT''" "isASCII ''Main''" "isASCII ''feature/auth''" "isASCII ''release''"
  by (simp_all add: isASCII_def)

lemma containsIgnoreCase_names:
  "containsIgnoreCase unicodeLower ''Main'' ''FEAT'' = False"
  "containsIgnoreCase unicodeLower ''feature/auth'' ''FEAT'' = True"
  "containsIgnoreCase unicodeLower ''release'' ''FEAT'' = False"
  by (simp_all add: containsIgnoreCase_def ToLower_def isASCII_def toLowerByte_def char_of_def bit_0)

text \<open>
  Claim C7. \<open>Filter\<close> of the empty query returns the stored items as they are; for every
  query it returns, in stored order, exactly the items whose display text or value
  contains the query once both are lower-cased by \<open>strings.ToLower\<close>; on ASCII text that
  is exactly the items whose display text or value contains the query
  case-insensitively, in the sense stated above without reference to the code. The
  stored sequence is not changed (\<open>Filter\<close> is a function of the state and returns only
  the view). On the items named \<open>Main\<close>, \<open>feature/auth\<close> and \<open>release\<close> the query
  \<open>FEAT\<close> selects \<open>feature/auth\<close> alone.
\<close>

theorem C7_filter_case_insensitive:
  "Filter unicodeLower [] b = items b
   \<and> Filter unicodeLower query b =
       filter (\<lambda>item. containsIgnoreCase unicodeLower (Display item) query
                      \<or> containsIgnoreCase unicodeLower (Value item) query) (items b)
   \<and> (isASCII query \<and> list_all (\<lambda>item. isASCII (Display item) \<and> isASCII (Value item)) (items b) \<longrightarrow>
        Filter unicodeLower query b =
          filter (\<lambda>item. contains_case_insensitively (Display item) query
                         \<or> contains_case_insensitively (Value item) query) (items b))
   \<and> Filter unicodeLower ''FEAT''
        (b\<lparr>items := [item_named ''Main'', item_named ''feature/auth'', item_named ''release'']\<rparr>)
       = [item_named ''feature/auth'']"
proof (intro conjI impI)
  show "Filter unicodeLower [] b = items b" by (simp add: Filter_def)
  show "Filter unicodeLower query b =
       filter (\<lambda>item. containsIgnoreCase unicodeLower (Display item) query
                      \<or> containsIgnoreCase unicodeLower (Value item) query) (items b)"
    by (rule Filter_is_filter)
  show "Filter unicodeLower ''FEAT''
        (b\<lparr>items := [item_named ''Main'', item_named ''feature/auth'', item_named ''release'']\<rparr>)
       = [item_named ''feature/auth'']"
    by (simp add: Filter_is_filter item_named_def containsIgnoreCase_names)
next
  assume a: "isASCII query \<and> list_all (\<lambda>item. isASCII (Display item) \<and> isASCII (Value item)) (items b)"
  have "filter (\<lambda>item. containsIgnoreCase unicodeLower (Display item) query
                      \<or> containsIgnoreCase unicodeLower (Value item) query) (items b)
      = filter (\<lambda>item. contains_case_insensitively (Display item) query
                         \<or> contains_case_insensitively (Value item) query) (items b)"
    using a by (intro filter_cong refl) (auto simp: list_all_iff containsIgnoreCase_ascii)
  then show "Filter unicodeLower query b =
          filter (\<lambda>item. contains_case_insensitively (Display item) query
                         \<or> contains_case_insensitively (Value item) query) (items b)"
    by (simp add: Filter_is_filter)
qed

theorem C7_filter_case_insensitive_witness:
  "isASCII ''FEAT''
   \<and> list_all (\<lambda>item. isASCII (Display item) \<and> isASCII (Value item))
        (items (three_items\<lparr>items := [item_named ''Main'', item_named ''feature/auth'', item_named ''release'']\<rparr>))
   \<and> Filter (\<lambda>s. s) ''FEAT''
        (three_items\<lparr>items := [item_named ''Main'', item_named ''feature/auth'', item_named ''release'']\<rparr>)
       = filter (\<lambda>item. contains_case_insensitively (Display item) ''FEAT''
                        \<or> contains_case_insensitively (Value item) ''FEAT'')
           (items (three_items\<lparr>items := [item_named ''Main'', item_named ''feature/auth'', item_named ''release'']\<rparr>))"
proof -
  let ?b = "three_items\<lparr>items := [item_named ''Main'', item_named ''feature/auth'', item_named ''release'']\<rparr>"
  have h: "isASCII ''FEAT''
      \<and> list_all (\<lambda>item. isASCII (Display item) \<and> isASCII (Value item)) (items ?b)"
    by (simp add: item_named_def isASCII_names)
  note c = C7_filter_case_insensitive [where unicodeLower = "\<lambda>s. s" and query = "''FEAT''" and b = ?b,
      THEN conjunct2, THEN conjunct2, THEN conjunct1, THEN mp, OF h]
  show ?thesis
    by (intro conjI) (rule h [THEN conjunct1] h [THEN conjunct2] c)+
qed

subsection \<open>The visible window and the selected item\<close>



text \<open>
  Claim C10. In every state reachable from construction through AddItem, RemoveItem,
  Clear, MoveUp, MoveDown, MoveToTop, MoveToBottom and SelectItem, whatever its flags
  (the router reads the selected item of the pane it has flagged active), and more
  generally in every state that satisfies the list invariant, \<open>GetSelectedItem\<close> returns
  nil exactly when the item list is empty, and otherwise the item stored at
  \<open>selectedIndex\<close>, which is then an index of the list.
\<close>

theorem C10_selected_item:
  assumes "reachable b \<or> list_inv b"
  shows "(GetSelectedItem b = None \<longleftrightarrow> items b = [])
         \<and> (items b \<noteq> [] \<longrightarrow> 0 \<le> selectedIndex b \<and> selectedIndex b < len (items b)
               \<and> GetSelectedItem b = Some (items b ! nat (selectedIndex b)))"
proof (cases "items b = []")
  case True
  then show ?thesis by (simp add: GetSelectedItem_def len_def)
next
  case False
  note f = list_inv_nonempty [OF list_inv_if_reachable [OF assms] False]
  show ?thesis using f False by (simp add: GetSelectedItem_def len_def)
qed

theorem C10_selected_item_witness:
  "(reachable (SetActive True three_items) \<or> list_inv (SetActive True three_items))
   \<and> active (SetActive True three_items)
   \<and> items (SetActive True three_items) \<noteq> []
   \<and> GetSelectedItem (SetActive True three_items)
       = Some (items (SetActive True three_items) ! nat (selectedIndex (SetActive True three_items)))"
proof -
  have r: "reachable (SetActive True three_items) \<or> list_inv (SetActive True three_items)"
    using reachable_active_three_items by (rule disjI1)
  have ne: "items (SetActive True three_items) \<noteq> []" by (simp add: active_three_items_fields)
  from C10_selected_item [OF r] ne
  have "GetSelectedItem (SetActive True three_items)
       = Some (items (SetActive True three_items) ! nat (selectedIndex (SetActive True three_items)))"
    by blast
  with r ne active_three_items_fields(5) show ?thesis by blast
qed

subsection \<open>Removing an item\<close>

text \<open>
  Claim C9. Removing the only item of a list whose selection is 0 leaves the list empty
  with \<open>selectedIndex = 0\<close> and \<open>scrollOffset = 0\<close>, and a MoveDown after it changes
  nothing. In general \<open>RemoveItem i\<close> with \<open>i\<close> in bounds removes exactly the item at
  \<open>i\<close>, and sets \<open>selectedIndex\<close> to the new length minus one when it would otherwise
  be past the end of a list that is still non-empty; with \<open>i\<close> out of bounds it changes
  nothing.
\<close>

theorem C9_remove_item:
  "(items b = [x] \<and> selectedIndex b = 0 \<longrightarrow>
      items (RemoveItem 0 b) = [] \<and> selectedIndex (RemoveItem 0 b) = 0
      \<and> scrollOffset (RemoveItem 0 b) = 0 \<and> MoveDown (RemoveItem 0 b) = RemoveItem 0 b)
   \<and> (0 \<le> i \<and> i < len (items b) \<longrightarrow>
        items (RemoveItem i b) = take (nat i) (items b) @ drop (nat i + 1) (items b)
        \<and> len (items (RemoveItem i b)) = len (items b) - 1
        \<and> (\<forall>k. k < nat i \<longrightarrow> items (RemoveItem i b) ! k = items b ! k)
        \<and> (\<forall>k. nat i \<le> k \<and> k + 1 < length (items b) \<longrightarrow> items (RemoveItem i b) ! k = items b ! (k + 1))
        \<and> selectedIndex (RemoveItem i b) =
            (if selectedIndex b \<ge> len (items b) - 1 \<and> len (items b) - 1 > 0
             then len (items b) - 1 - 1 else selectedIndex b))
   \<and> (i < 0 \<or> i \<ge> len (items b) \<longrightarrow> RemoveItem i b = b)"
proof (intro conjI impI)
  assume a: "items b = [x] \<and> selectedIndex b = 0"
  then have r: "RemoveItem 0 b = b\<lparr>items := [], scrollOffset := 0\<rparr>"
    by (simp add: RemoveItem_def Let_def len_def adjustScrollOffset_def)
  show "items (RemoveItem 0 b) = []" "selectedIndex (RemoveItem 0 b) = 0"
    "scrollOffset (RemoveItem 0 b) = 0" "MoveDown (RemoveItem 0 b) = RemoveItem 0 b"
    unfolding r using a by (simp_all add: MoveDown_def len_def)
next
  assume a: "0 \<le> i \<and> i < len (items b)"
  have n: "nat (i + 1) = nat i + 1" using a by linarith
  show it: "items (RemoveItem i b) = take (nat i) (items b) @ drop (nat i + 1) (items b)"
    using a by (simp add: RemoveItem_def Let_def n adjustScrollOffset_def)
  show "len (items (RemoveItem i b)) = len (items b) - 1"
    unfolding it using a by (auto simp: len_def)
  show "\<forall>k. k < nat i \<longrightarrow> items (RemoveItem i b) ! k = items b ! k"
    unfolding it using a by (auto simp: len_def nth_append)
  show "\<forall>k. nat i \<le> k \<and> k + 1 < length (items b) \<longrightarrow> items (RemoveItem i b) ! k = items b ! (k + 1)"
    unfolding it using a by (auto simp: len_def nth_append min_def)
  have l: "len (take (nat i) (items b) @ drop (nat i + 1) (items b)) = len (items b) - 1"
    using a by (auto simp: len_def)
  show "selectedIndex (RemoveItem i b) =
            (if selectedIndex b \<ge> len (items b) - 1 \<and> len (items b) - 1 > 0
             then len (items b) - 1 - 1 else selectedIndex b)"
    using a l by (simp add: RemoveItem_def Let_def n adjustScrollOffset_def)
next
  assume "i < 0 \<or> i \<ge> len (items b)"
  then show "RemoveItem i b = b" by (auto simp: RemoveItem_def)
qed

theorem C9_remove_item_witness:
  "items (AddItem (item_named ''A'') (NewBasePaneModel ''Stash'' StashPaneType ''stash'')) = [item_named ''A'']
   \<and> selectedIndex (AddItem (item_named ''A'') (NewBasePaneModel ''Stash'' StashPaneType ''stash'')) = 0
   \<and> items (RemoveItem 0 (AddItem (item_named ''A'') (NewBasePaneModel ''Stash'' StashPaneType ''stash''))) = []
   \<and> (0::int) \<le> 1 \<and> 1 < len (items three_items)
   \<and> len (items (RemoveItem 1 three_items)) = len (items three_items) - 1
   \<and> 5 \<ge> len (items three_items)
   \<and> RemoveItem 5 three_items = three_items"
proof -
  let ?one = "AddItem (item_named ''A'') (NewBasePaneModel ''Stash'' StashPaneType ''stash'')"
  have h1: "items ?one = [item_named ''A''] \<and> selectedIndex ?one = 0"
    by (simp add: AddItem_def NewBasePaneModel_def)
  have h2: "(0::int) \<le> 1 \<and> 1 < len (items three_items)"
    by (simp add: three_items_fields len_def)
  have h3: "(5::int) < 0 \<or> 5 \<ge> len (items three_items)"
    by (simp add: three_items_fields len_def)
  from C9_remove_item [of ?one "item_named ''A''" 0] h1
  have c1: "items (RemoveItem 0 ?one) = []" by blast
  from C9_remove_item [of three_items _ 1] h2
  have c2: "len (items (RemoveItem 1 three_items)) = len (items three_items) - 1" by blast
  from C9_remove_item [of three_items _ 5] h3
  have c3: "RemoveItem 5 three_items = three_items" by blast
  from h1 h2 h3 c1 c2 c3 show ?thesis by auto
qed

section \<open>Properties of the router\<close>

subsection \<open>The active pane\<close>

lemma length_setActiveFrom [simp]: "length (setActiveFrom i index ps) = length ps"
  by (induction ps arbitrary: i) simp_all

lemma nth_setActiveFrom:
  "j < length ps \<Longrightarrow> setActiveFrom i index ps ! j = SetActive (i + int j = index) (ps ! j)"
proof (induction ps arbitrary: i j)
  case Nil
  then show ?case by simp
next
  case (Cons p ps)
  show ?case
  proof (cases j)
    case 0
    then show ?thesis by simp
  next
    case (Suc j')
    then have "j' < length ps" using Cons.prems by simp
    from Cons.IH [OF this, of "i + 1"] Suc show ?thesis by (simp add: ac_simps)
  qed
qed

lemma filter_eq_upt: "filter (\<lambda>j. j = k) [0 ..< n] = (if k < n then [k] else [])"
  by (induction n) auto

lemma active_indices_setActiveFrom:
  assumes "0 \<le> index" "index < len ps"
  shows "active_indices (setActiveFrom 0 index ps) = [nat index]"
proof -
  have "filter (\<lambda>j. active (setActiveFrom 0 index ps ! j)) [0 ..< length ps]
        = filter (\<lambda>j. j = nat index) [0 ..< length ps]"
    using assms(1) by (intro filter_cong) (auto simp: nth_setActiveFrom SetActive_def)
  also have "\<dots> = [nat index]"
    using assms by (simp add: filter_eq_upt len_def)
  finally show ?thesis by (simp add: active_indices_def)
qed

lemma setActivePane_in:
  assumes "0 \<le> i" "i < len (panes m)"
  shows "activePane (setActivePane i m) = i" "len (panes (setActivePane i m)) = len (panes m)"
    "active_indices (panes (setActivePane i m)) = [nat i]"
  using assms by (simp_all add: setActivePane_def len_def active_indices_setActiveFrom)

lemma setActivePane_out: "i < 0 \<or> i \<ge> len (panes m) \<Longrightarrow> setActivePane i m = m"
  by (auto simp: setActivePane_def)

lemma go_rem_nonneg: "0 \<le> a \<Longrightarrow> 0 < b \<Longrightarrow> go_rem a b = Some (a mod b)"
  by (cases "a = 0") (simp_all add: go_rem_def)

lemma nextPane_ok:
  assumes "router_ok n m"
  shows "nextPane m = Some (setActivePane ((activePane m + 1) mod n) m)"
  using assms by (simp add: nextPane_def router_ok_def go_rem_nonneg)

lemma prevPane_ok:
  assumes "router_ok n m"
  shows "prevPane m = Some (setActivePane ((activePane m - 1 + n) mod n) m)"
  using assms by (simp add: prevPane_def router_ok_def go_rem_nonneg)

lemma call_step:
  assumes "router_ok n m"
  shows "\<exists>m'. call c m = Some m' \<and> router_ok n m'
           \<and> (if takes_effect n c then active_indices (panes m') = [nat (activePane m')] else m' = m)"
proof -
  have n: "0 < n" "len (panes m) = n" using assms by (auto simp: router_ok_def)
  have step: "router_ok n (setActivePane i m)
        \<and> active_indices (panes (setActivePane i m)) = [nat (activePane (setActivePane i m))]"
    if "0 \<le> i" "i < n" for i
    using that n setActivePane_in [of i m] by (simp add: router_ok_def)
  show ?thesis
  proof (cases c)
    case (CallSetActivePane i)
    show ?thesis
    proof (cases "0 \<le> i \<and> i < n")
      case True
      with step [of i] CallSetActivePane show ?thesis by simp
    next
      case False
      then have "setActivePane i m = m" using n by (intro setActivePane_out) auto
      moreover have "\<not> takes_effect n c" using False CallSetActivePane by simp
      ultimately show ?thesis using CallSetActivePane assms by auto
    qed
  next
    case CallNextPane
    have "0 \<le> (activePane m + 1) mod n" "(activePane m + 1) mod n < n" using n by simp_all
    from step [OF this] CallNextPane nextPane_ok [OF assms] show ?thesis by simp
  next
    case CallPrevPane
    have "0 \<le> (activePane m - 1 + n) mod n" "(activePane m - 1 + n) mod n < n" using n by simp_all
    from step [OF this] CallPrevPane prevPane_ok [OF assms] show ?thesis by simp
  qed
qed

lemma calls_one_active:
  assumes "router_ok n m"
    and "active_indices (panes m) = [nat (activePane m)] \<or> list_ex (takes_effect n) cs"
  shows "\<exists>m'. calls cs m = Some m' \<and> router_ok n m'
           \<and> active_indices (panes m') = [nat (activePane m')]"
  using assms
proof (induction cs arbitrary: m)
  case Nil
  then show ?case by simp
next
  case (Cons c cs)
  from call_step [OF Cons.prems(1), of c] obtain m1 where
    m1: "call c m = Some m1" "router_ok n m1"
      "if takes_effect n c then active_indices (panes m1) = [nat (activePane m1)] else m1 = m"
    by blast
  have "active_indices (panes m1) = [nat (activePane m1)] \<or> list_ex (takes_effect n) cs"
    using m1(3) Cons.prems(2) by (cases "takes_effect n c") auto
  from Cons.IH [OF m1(2) this] m1(1) show ?case by simp
qed

text \<open>
  Claim C5, as amended. On a router holding \<open>n\<close> panes (five in the five-pane version),
  \<open>setActivePane i\<close> with \<open>0 \<le> i < n\<close> makes \<open>i\<close> the active index, raises the active
  flag of pane \<open>i\<close> and lowers the flag of every other pane, whatever the flags were, and
  changes nothing else of a pane; with \<open>i\<close> out of bounds it leaves the router as it is.
  Hence, when the active index is in bounds, after every sequence of
  setActivePane, nextPane and prevPane calls that holds at least one nextPane, prevPane or
  in-bounds setActivePane call, or that starts with exactly the pane at the active index
  flagged, no call panics and exactly the pane at the active index is flagged active.
\<close>

theorem C5_exactly_one_active:
  assumes "len (panes m) = n"
  shows "(0 \<le> i \<and> i < n \<longrightarrow>
            activePane (setActivePane i m) = i
            \<and> length (panes (setActivePane i m)) = length (panes m)
            \<and> (\<forall>j < length (panes m).
                  panes (setActivePane i m) ! j = SetActive (int j = i) (panes m ! j)
                  \<and> active (panes (setActivePane i m) ! j) = (int j = i)))
       \<and> (i < 0 \<or> i \<ge> n \<longrightarrow> setActivePane i m = m)
       \<and> (0 \<le> activePane m \<and> activePane m < n
            \<and> (active_indices (panes m) = [nat (activePane m)] \<or> list_ex (takes_effect n) cs) \<longrightarrow>
            (\<exists>m'. calls cs m = Some m' \<and> 0 \<le> activePane m' \<and> activePane m' < n
                   \<and> active_indices (panes m') = [nat (activePane m')]))"
proof (intro conjI impI)
  assume a: "0 \<le> i \<and> i < n"
  then show "activePane (setActivePane i m) = i"
    using assms by (simp add: setActivePane_def)
  show "length (panes (setActivePane i m)) = length (panes m)"
    by (simp add: setActivePane_def)
  show "\<forall>j < length (panes m).
          panes (setActivePane i m) ! j = SetActive (int j = i) (panes m ! j)
          \<and> active (panes (setActivePane i m) ! j) = (int j = i)"
    using a assms by (simp add: setActivePane_def nth_setActiveFrom SetActive_def)
next
  assume "i < 0 \<or> i \<ge> n"
  then show "setActivePane i m = m" using assms by (intro setActivePane_out) simp
next
  assume a: "0 \<le> activePane m \<and> activePane m < n
            \<and> (active_indices (panes m) = [nat (activePane m)] \<or> list_ex (takes_effect n) cs)"
  then have ok: "router_ok n m" using assms by (simp add: router_ok_def)
  from calls_one_active [OF ok, of cs] a
  show "\<exists>m'. calls cs m = Some m' \<and> 0 \<le> activePane m' \<and> activePane m' < n
                   \<and> active_indices (panes m') = [nat (activePane m')]"
    by (auto simp: router_ok_def)
qed

lemma fresh5: "len (panes (NewModel_diff fresh_panes)) = 5"
  by (simp add: NewModel_diff_def fresh_panes_def len_def)

theorem C5_exactly_one_active_witness:
  "len (panes (NewModel_diff fresh_panes)) = 5
   \<and> activePane (setActivePane 2 (NewModel_diff fresh_panes)) = 2
   \<and> setActivePane 5 (NewModel_diff fresh_panes) = NewModel_diff fresh_panes
   \<and> list_ex (takes_effect 5) [CallNextPane, CallSetActivePane 7, CallPrevPane, CallPrevPane]
   \<and> calls [CallNextPane, CallSetActivePane 7, CallPrevPane, CallPrevPane] (NewModel_diff fresh_panes) \<noteq> None"
proof -
  let ?m = "NewModel_diff fresh_panes"
  let ?cs = "[CallNextPane, CallSetActivePane 7, CallPrevPane, CallPrevPane]"
  have h0: "len (panes ?m) = 5" by (rule fresh5)
  have h1: "(0::int) \<le> 2 \<and> (2::int) < 5" by simp
  have h2: "(5::int) < 0 \<or> (5::int) \<ge> 5" by simp
  have h3: "0 \<le> activePane ?m \<and> activePane ?m < 5
       \<and> (active_indices (panes ?m) = [nat (activePane ?m)] \<or> list_ex (takes_effect 5) ?cs)"
    by (simp add: NewModel_diff_def)
  from C5_exactly_one_active [OF h0, of 2] h1
  have c1: "activePane (setActivePane 2 ?m) = 2" by blast
  from C5_exactly_one_active [OF h0, of 5] h2
  have c2: "setActivePane 5 ?m = ?m" by blast
  from C5_exactly_one_active [OF h0, of _ ?cs] h3
  have c3: "calls ?cs ?m \<noteq> None" by auto
  have h4: "list_ex (takes_effect 5) ?cs" by simp
  from h0 c1 c2 c3 h4 show ?thesis by blast
qed

text \<open>
  The claim as stated fails on the router that \<open>NewModel\<close> returns: none of its five panes
  is flagged active (the flags are set on the first render), and an out-of-bounds
  \<open>setActivePane(5)\<close> leaves it so.
\<close>

theorem C5_exactly_one_active_counterexample:
  "len (panes (NewModel_diff fresh_panes)) = 5
   \<and> calls [CallSetActivePane 5] (NewModel_diff fresh_panes) = Some (NewModel_diff fresh_panes)
   \<and> active_indices (panes (NewModel_diff fresh_panes)) = []"
  by (simp add: NewModel_diff_def fresh_panes_def len_def setActivePane_def active_indices_def
      NewBasePaneModel_def upt_rec)

subsection \<open>A refresh that completes on a pane no longer active\<close>

lemma length_updatePanes [simp]: "length (fst (updatePanes upd msg ps)) = length ps"
  by (induction ps) (simp_all add: split_beta)

lemma nth_updatePanes:
  "i < length ps \<Longrightarrow> fst (updatePanes upd msg ps) ! i = fst (upd msg (ps ! i))"
proof (induction ps arbitrary: i)
  case Nil
  then show ?case by simp
next
  case (Cons p ps)
  then show ?case by (cases i) (simp_all add: split_beta)
qed

lemma addStashItems_fields:
  "items (addStashItems i stashes s) = items s @ map (\<lambda>(j, l). stashItem j l) (enumerate i stashes)"
  "loading (addStashItems i stashes s) = loading s"
  "active (addStashItems i stashes s) = active s"
  by (induction stashes arbitrary: i s) (simp_all add: AddItem_def)

lemma updateFromStashMsg_fields:
  "items (updateFromStashMsg stashes s) = stashItems stashes"
  "loading (updateFromStashMsg stashes s) = False"
  "active (updateFromStashMsg stashes s) = active s"
  by (simp_all add: updateFromStashMsg_def stashItems_def Let_def len_def addStashItems_fields
      AddItem_def Clear_def SetLoading_def)

lemma five_pane_router_fields:
  "panes five_pane_router =
     [NewBasePaneModel ''Status'' StatusPaneType ''status'',
      NewBasePaneModel ''Files'' FilesPaneType ''files'',
      NewBasePaneModel ''Branches'' BranchesPaneType ''branches'',
      NewBasePaneModel ''Commits'' CommitsPaneType ''commits'',
      (NewBasePaneModel ''Stash'' StashPaneType ''stash'')\<lparr>active := True\<rparr>]"
  "activePane five_pane_router = 4"
  by (simp_all add: five_pane_router_def NewModel_diff_def fresh_panes_def setActivePane_def len_def
      SetActive_def NewBasePaneModel_def)

text \<open>
  Claim C6. Let pane \<open>i\<close> of the five-pane router be the stash pane. After its refresh is
  triggered (its loading flag is raised) and another pane \<open>j\<close> is made active, the router
  delivers the completion message \<open>StashUpdateMsg\<close> to every pane: the stash pane, although
  no longer active, then holds exactly the items built from the message and its loading
  flag is lowered. A key event, in contrast, leaves a stash pane that is not active as it
  is.
\<close>

theorem C6_refresh_completes_on_inactive_pane:
  assumes "i < length (panes m)" and "paneType (panes m ! i) = StashPaneType"
    and "0 \<le> j" and "j < len (panes m)" and "nat j \<noteq> i"
  shows "let refreshing = m\<lparr>panes := (panes m)[i := fst (StashPane_Refresh (panes m ! i))]\<rparr>;
             switched = setActivePane j refreshing
         in loading (panes refreshing ! i)
            \<and> loading (panes switched ! i) \<and> \<not> active (panes switched ! i)
            \<and> activePane switched = j
            \<and> (\<exists>m' cmd. Update_diff batch (Pane_Update_diff other) rfr (StashUpdateMsg stashes) switched
                           = Some (m', cmd)
                  \<and> items (panes m' ! i) = stashItems stashes
                  \<and> \<not> loading (panes m' ! i) \<and> \<not> active (panes m' ! i)
                  \<and> activePane m' = j)
            \<and> StashPane_Update (KeyMsg k) (panes switched ! i) = (panes switched ! i, None)
            \<and> (\<not> active p \<longrightarrow> StashPane_Update (KeyMsg k) p = (p, None))"
proof -
  define refreshing where "refreshing = m\<lparr>panes := (panes m)[i := fst (StashPane_Refresh (panes m ! i))]\<rparr>"
  define switched where "switched = setActivePane j refreshing"
  have lr: "length (panes refreshing) = length (panes m)" by (simp add: refreshing_def)
  have pr: "panes refreshing ! i = SetLoading True (panes m ! i)"
    using assms(1) by (simp add: refreshing_def StashPane_Refresh_def)
  have r1: "loading (panes refreshing ! i)" by (simp add: pr SetLoading_def)
  have jr: "0 \<le> j \<and> j < len (panes refreshing)" using assms lr by (simp add: len_def)
  have ps: "panes switched = setActiveFrom 0 j (panes refreshing)" and as: "activePane switched = j"
    using jr by (simp_all add: switched_def setActivePane_def)
  have ls: "length (panes switched) = length (panes m)" by (simp add: ps lr)
  have ne: "int i \<noteq> j" using assms(3,5) by auto
  have pi: "panes switched ! i = SetActive False (SetLoading True (panes m ! i))"
    using assms(1) lr ne by (simp add: ps nth_setActiveFrom pr)
  have s1: "loading (panes switched ! i)" "\<not> active (panes switched ! i)"
    "paneType (panes switched ! i) = StashPaneType"
    using assms(2) by (simp_all add: pi SetActive_def SetLoading_def)
  define m' where "m' = fst (updateAllPanes batch (Pane_Update_diff other) (StashUpdateMsg stashes) switched)"
  define cmd where "cmd = snd (updateAllPanes batch (Pane_Update_diff other) (StashUpdateMsg stashes) switched)"
  have u: "Update_diff batch (Pane_Update_diff other) rfr (StashUpdateMsg stashes) switched = Some (m', cmd)"
    by (simp add: Update_diff_def m'_def cmd_def)
  have pm: "panes m' = fst (updatePanes (Pane_Update_diff other) (StashUpdateMsg stashes) (panes switched))"
    and am: "activePane m' = activePane switched"
    by (simp_all add: m'_def updateAllPanes_def split_beta)
  have "panes m' ! i = fst (Pane_Update_diff other (StashUpdateMsg stashes) (panes switched ! i))"
    using assms(1) ls by (simp add: pm nth_updatePanes)
  also have "\<dots> = updateFromStashMsg stashes (panes switched ! i)"
    using s1(3) by (simp add: Pane_Update_diff_def StashPane_Update_def)
  finally have pm': "panes m' ! i = updateFromStashMsg stashes (panes switched ! i)" .
  have r3: "items (panes m' ! i) = stashItems stashes" "\<not> loading (panes m' ! i)"
    "\<not> active (panes m' ! i)"
    using s1(2) by (simp_all add: pm' updateFromStashMsg_fields)
  have k1: "StashPane_Update (KeyMsg k) (panes switched ! i) = (panes switched ! i, None)"
    using s1(2) by (simp add: StashPane_Update_def IsActive_def)
  have k2: "\<not> active p \<longrightarrow> StashPane_Update (KeyMsg k) p = (p, None)"
    by (simp add: StashPane_Update_def IsActive_def)
  have ex: "\<exists>m' cmd. Update_diff batch (Pane_Update_diff other) rfr (StashUpdateMsg stashes) switched
                           = Some (m', cmd)
                  \<and> items (panes m' ! i) = stashItems stashes
                  \<and> \<not> loading (panes m' ! i) \<and> \<not> active (panes m' ! i)
                  \<and> activePane m' = j"
    using u r3 am as by blast
  show ?thesis
    unfolding Let_def refreshing_def [symmetric] switched_def [symmetric]
    using r1 s1(1,2) as ex k1 k2 by blast
qed

theorem C6_refresh_completes_on_inactive_pane_witness:
  "4 < length (panes five_pane_router) \<and> paneType (panes five_pane_router ! 4) = StashPaneType
   \<and> (0::int) \<le> 1 \<and> 1 < len (panes five_pane_router) \<and> nat 1 \<noteq> 4
   \<and> \<not> active (NewBasePaneModel ''Stash'' StashPaneType ''stash'')
   \<and> StashPane_Update (KeyMsg ''j'') (NewBasePaneModel ''Stash'' StashPaneType ''stash'')
       = (NewBasePaneModel ''Stash'' StashPaneType ''stash'', None)
   \<and> (\<exists>m' cmd.
         Update_diff batch_nil_on_empty (Pane_Update_diff ignoring_Update) idle_Refresh
           (StashUpdateMsg [wip_stash])
           (setActivePane 1 (five_pane_router\<lparr>panes := (panes five_pane_router)
              [4 := fst (StashPane_Refresh (panes five_pane_router ! 4))]\<rparr>)) = Some (m', cmd)
         \<and> items (panes m' ! 4) = stashItems [wip_stash]
         \<and> \<not> loading (panes m' ! 4) \<and> \<not> active (panes m' ! 4))"
proof -
  have h1: "4 < length (panes five_pane_router)" by (simp add: five_pane_router_fields)
  have h2: "paneType (panes five_pane_router ! 4) = StashPaneType"
    by (simp add: five_pane_router_fields NewBasePaneModel_def)
  have h3: "(0::int) \<le> 1" by simp
  have h4: "1 < len (panes five_pane_router)" by (simp add: five_pane_router_fields len_def)
  have h5: "nat 1 \<noteq> 4" by simp
  have h6: "\<not> active (NewBasePaneModel ''Stash'' StashPaneType ''stash'')"
    by (simp add: NewBasePaneModel_def)
  note t = C6_refresh_completes_on_inactive_pane [OF h1 h2 h3 h4 h5,
      where k = "''j''" and batch = batch_nil_on_empty and other = ignoring_Update
        and rfr = idle_Refresh and stashes = "[wip_stash]"
        and p = "NewBasePaneModel ''Stash'' StashPaneType ''stash''", unfolded Let_def]
  from t h6 have c1: "StashPane_Update (KeyMsg ''j'') (NewBasePaneModel ''Stash'' StashPaneType ''stash'')
       = (NewBasePaneModel ''Stash'' StashPaneType ''stash'', None)" by blast
  from t have c2: "\<exists>m' cmd.
         Update_diff batch_nil_on_empty (Pane_Update_diff ignoring_Update) idle_Refresh
           (StashUpdateMsg [wip_stash])
           (setActivePane 1 (five_pane_router\<lparr>panes := (panes five_pane_router)
              [4 := fst (StashPane_Refresh (panes five_pane_router ! 4))]\<rparr>)) = Some (m', cmd)
         \<and> items (panes m' ! 4) = stashItems [wip_stash]
         \<and> \<not> loading (panes m' ! 4) \<and> \<not> active (panes m' ! 4)" by blast
  from h1 h2 h3 h4 h5 h6 c1 c2 show ?thesis by blast
qed

subsection \<open>Routing of key events\<close>

lemma updateActivePane_in_range:
  assumes "0 \<le> activePane m" "activePane m < len (panes m)"
  shows "updateActivePane batch upd msg m =
     Some (m\<lparr>panes := (panes m)[nat (activePane m) := fst (upd msg (panes m ! nat (activePane m)))]\<rparr>,
           batch (case snd (upd msg (panes m ! nat (activePane m))) of None \<Rightarrow> [] | Some c \<Rightarrow> [c]))"
  using assms by (simp add: updateActivePane_def split_beta)

lemma Update_details_hands_on:
  assumes "handleKeyMsg_details batch rfr k m = Some (m1, None)" "k \<noteq> '' ''"
    "focus m1 = FocusLeftPanes"
  shows "Update_details batch upd rfr (KeyMsg k) m = updateActivePane batch upd (KeyMsg k) m1"
  using assms by (simp add: Update_details_def)

lemma Update_diff_hands_on:
  assumes "handleKeyMsg_diff batch rfr k m = Some (m1, None)"
  shows "Update_diff batch upd rfr (KeyMsg k) m = updateActivePane batch upd (KeyMsg k) m1"
  using assms by (simp add: Update_diff_def)

lemma focus_setActivePane: "focus (setActivePane i m) = focus m"
  by (simp add: setActivePane_def)

lemma nav_details:
  assumes "router_ok n m" "focus m = FocusLeftPanes"
  shows "handleKeyMsg_details batch rfr ''tab'' m = Some (setActivePane ((activePane m + 1) mod n) m, batch [])"
    "handleKeyMsg_details batch rfr ''shift+tab'' m = Some (setActivePane ((activePane m - 1) mod n) m, batch [])"
    "handleKeyMsg_details batch rfr ''1'' m = Some (setActivePane 0 m, batch [])"
    "handleKeyMsg_details batch rfr ''2'' m = Some (setActivePane 1 m, batch [])"
    "handleKeyMsg_details batch rfr ''3'' m = Some (setActivePane 2 m, batch [])"
    "handleKeyMsg_details batch rfr ''4'' m = Some (setActivePane 3 m, batch [])"
  using assms(2) nextPane_ok [OF assms(1)] prevPane_ok [OF assms(1)]
  by (simp_all add: handleKeyMsg_details_def handlePaneNavigation_def)

lemma nav_diff:
  assumes "router_ok n m"
  shows "handleKeyMsg_diff batch rfr ''tab'' m = Some (setActivePane ((activePane m + 1) mod n) m, batch [])"
    "handleKeyMsg_diff batch rfr ''shift+tab'' m = Some (setActivePane ((activePane m - 1) mod n) m, batch [])"
    "handleKeyMsg_diff batch rfr ''1'' m = Some (setActivePane 0 m, batch [])"
    "handleKeyMsg_diff batch rfr ''2'' m = Some (setActivePane 1 m, batch [])"
    "handleKeyMsg_diff batch rfr ''3'' m = Some (setActivePane 2 m, batch [])"
    "handleKeyMsg_diff batch rfr ''4'' m = Some (setActivePane 3 m, batch [])"
    "handleKeyMsg_diff batch rfr ''5'' m = Some (setActivePane 4 m, batch [])"
  using nextPane_ok [OF assms(1)] prevPane_ok [OF assms(1)]
  by (simp_all add: handleKeyMsg_diff_def)

lemma fall_through_details:
  assumes "batch [] = None" "router_ok n m" "focus m = FocusLeftPanes"
  shows "map (\<lambda>k. Update_details batch upd rfr (KeyMsg k) m) switching_keys_details
         = map (\<lambda>(k, i). updateActivePane batch upd (KeyMsg k) (setActivePane i m))
             [(''tab'', (activePane m + 1) mod n), (''shift+tab'', (activePane m - 1) mod n),
              (''1'', 0), (''2'', 1), (''3'', 2), (''4'', 3)]"
proof -
  have f: "focus (setActivePane i m) = FocusLeftPanes" for i
    using assms(3) by (simp add: focus_setActivePane)
  note h = nav_details [OF assms(2,3), of batch rfr, unfolded assms(1)]
  show ?thesis
    unfolding switching_keys_details_def
    by (simp add: h [THEN Update_details_hands_on] f)
qed

lemma fall_through_diff:
  assumes "batch [] = None" "router_ok n m"
  shows "map (\<lambda>k. Update_diff batch upd rfr (KeyMsg k) m) switching_keys_diff
         = map (\<lambda>(k, i). updateActivePane batch upd (KeyMsg k) (setActivePane i m))
             [(''tab'', (activePane m + 1) mod n), (''shift+tab'', (activePane m - 1) mod n),
              (''1'', 0), (''2'', 1), (''3'', 2), (''4'', 3), (''5'', 4)]"
proof -
  note h = nav_diff [OF assms(2), of batch rfr, unfolded assms(1)]
  show ?thesis
    unfolding switching_keys_diff_def
    by (simp add: h [THEN Update_diff_hands_on])
qed

lemma other_keys_details:
  assumes "batch [] = None" "k \<notin> set returning_keys" "k \<notin> set switching_keys_details"
    "focus m = FocusLeftPanes"
  shows "\<exists>m1. handleKeyMsg_details batch rfr k m = Some (m1, None)
           \<and> panes m1 = panes m \<and> activePane m1 = activePane m \<and> focus m1 = FocusLeftPanes"
  using assms
  by (auto simp: returning_keys_def switching_keys_details_def handleKeyMsg_details_def
      handleVerticalNavigation_def handleJumpToTop_def handleJumpToBottom_def)

lemma other_keys_diff:
  assumes "batch [] = None" "k \<notin> set returning_keys" "k \<notin> set switching_keys_diff"
  shows "\<exists>m1. handleKeyMsg_diff batch rfr k m = Some (m1, None)
           \<and> panes m1 = panes m \<and> activePane m1 = activePane m"
  using assms
  by (auto simp: returning_keys_def switching_keys_diff_def handleKeyMsg_diff_def
      scrollDiffDown_def scrollDiffUp_def Let_def)

lemma four_pane_router_fields:
  "panes four_pane_router =
     [(NewBasePaneModel ''Workspace'' StatusPaneType ''workspace'')\<lparr>active := True\<rparr>,
      NewBasePaneModel ''Packages'' BranchesPaneType ''packages'',
      NewBasePaneModel ''Pull Requests'' CommitsPaneType ''pullrequests'',
      NewBasePaneModel ''Greeting'' StashPaneType ''greeting'']"
  "activePane four_pane_router = 0" "focus four_pane_router = FocusLeftPanes"
  "height four_pane_router = 24"
  "details four_pane_router = \<lparr> selectedLine = 0, scrollPos = 0, lines = [] \<rparr>"
  by (simp_all add: four_pane_router_def NewModel_details_def setActivePane_def len_def
      SetActive_def NewBasePaneModel_def)

text \<open>
  Claim C4. What the router does with a key event, given that \<open>tea.Batch()\<close> of no
  commands is \<open>nil\<close>. The space key (toggle focus, four-pane version) and the quit keys
  are taken first and the router returns without calling a pane handler; so is
  refresh-all whenever the refreshes yield a command. The keys of next pane, previous
  pane and numeric direct-select do not short-circuit: \<open>handleKeyMsg\<close> switches the active
  pane and returns \<open>tea.Batch()\<close>, which \<open>Update\<close> takes for "not handled", so that the
  same key event is then handed to the \<open>Update\<close> of the newly active pane. Every other
  key event, while focus is on the panes (the five-pane version has no other focus), is
  handed to the \<open>Update\<close> of the active pane of the router as \<open>handleKeyMsg\<close> leaves it,
  with the same panes and the same active index. Handing a key on means: the pane at the
  active index is replaced by what its \<open>Update\<close> returns, and the command it returns, if
  any, is batched.
\<close>

theorem C4_key_routing:
  assumes "batch [] = None"
  shows "Update_details batch upd rfr (KeyMsg '' '') m = Some (toggleFocus m, None)
   \<and> (k = ''q'' \<or> k = ''ctrl+c'' \<longrightarrow>
        Update_details batch upd rfr (KeyMsg k) m = Some (m\<lparr>quitting := True\<rparr>, Some Quit)
        \<and> Update_diff batch upd rfr (KeyMsg k) d = Some (d\<lparr>quitting := True\<rparr>, Some Quit))
   \<and> (snd (refreshAll batch rfr m) \<noteq> None \<longrightarrow>
        Update_details batch upd rfr (KeyMsg ''ctrl+r'') m = Some (refreshAll batch rfr m))
   \<and> (snd (refreshAll batch rfr d) \<noteq> None \<longrightarrow>
        Update_diff batch upd rfr (KeyMsg ''ctrl+r'') d = Some (refreshAll batch rfr d))
   \<and> (focus m = FocusLeftPanes \<and> 0 \<le> activePane m \<and> activePane m < len (panes m) \<longrightarrow>
        map (\<lambda>k. Update_details batch upd rfr (KeyMsg k) m) switching_keys_details
        = map (\<lambda>(k, i). updateActivePane batch upd (KeyMsg k) (setActivePane i m))
            [(''tab'', (activePane m + 1) mod len (panes m)),
             (''shift+tab'', (activePane m - 1) mod len (panes m)),
             (''1'', 0), (''2'', 1), (''3'', 2), (''4'', 3)])
   \<and> (0 \<le> activePane d \<and> activePane d < len (panes d) \<longrightarrow>
        map (\<lambda>k. Update_diff batch upd rfr (KeyMsg k) d) switching_keys_diff
        = map (\<lambda>(k, i). updateActivePane batch upd (KeyMsg k) (setActivePane i d))
            [(''tab'', (activePane d + 1) mod len (panes d)),
             (''shift+tab'', (activePane d - 1) mod len (panes d)),
             (''1'', 0), (''2'', 1), (''3'', 2), (''4'', 3), (''5'', 4)])
   \<and> (k \<notin> set returning_keys \<and> k \<notin> set switching_keys_details \<and> focus m = FocusLeftPanes \<longrightarrow>
        (\<exists>m1. handleKeyMsg_details batch rfr k m = Some (m1, None)
               \<and> panes m1 = panes m \<and> activePane m1 = activePane m
               \<and> Update_details batch upd rfr (KeyMsg k) m = updateActivePane batch upd (KeyMsg k) m1))
   \<and> (k \<notin> set returning_keys \<and> k \<notin> set switching_keys_diff \<longrightarrow>
        (\<exists>d1. handleKeyMsg_diff batch rfr k d = Some (d1, None)
               \<and> panes d1 = panes d \<and> activePane d1 = activePane d
               \<and> Update_diff batch upd rfr (KeyMsg k) d = updateActivePane batch upd (KeyMsg k) d1))
   \<and> (0 \<le> activePane r \<and> activePane r < len (panes r) \<longrightarrow>
        updateActivePane batch upd msg r =
          Some (r\<lparr>panes := (panes r)[nat (activePane r) := fst (upd msg (panes r ! nat (activePane r)))]\<rparr>,
                batch (case snd (upd msg (panes r ! nat (activePane r))) of
                         None \<Rightarrow> [] | Some c \<Rightarrow> [c])))"
proof (intro conjI impI)
  show "Update_details batch upd rfr (KeyMsg '' '') m = Some (toggleFocus m, None)"
    by (simp add: Update_details_def)
next
  assume "k = ''q'' \<or> k = ''ctrl+c''"
  then show "Update_details batch upd rfr (KeyMsg k) m = Some (m\<lparr>quitting := True\<rparr>, Some Quit)"
    "Update_diff batch upd rfr (KeyMsg k) d = Some (d\<lparr>quitting := True\<rparr>, Some Quit)"
    by (auto simp: Update_details_def handleKeyMsg_details_def Update_diff_def handleKeyMsg_diff_def)
next
  assume "snd (refreshAll batch rfr m) \<noteq> None"
  then show "Update_details batch upd rfr (KeyMsg ''ctrl+r'') m = Some (refreshAll batch rfr m)"
    by (simp add: Update_details_def handleKeyMsg_details_def split_beta)
next
  assume "snd (refreshAll batch rfr d) \<noteq> None"
  then show "Update_diff batch upd rfr (KeyMsg ''ctrl+r'') d = Some (refreshAll batch rfr d)"
    by (simp add: Update_diff_def handleKeyMsg_diff_def split_beta)
next
  assume a: "focus m = FocusLeftPanes \<and> 0 \<le> activePane m \<and> activePane m < len (panes m)"
  then have ok: "router_ok (len (panes m)) m" by (simp add: router_ok_def)
  from a have f: "focus m = FocusLeftPanes" by simp
  show "map (\<lambda>k. Update_details batch upd rfr (KeyMsg k) m) switching_keys_details
        = map (\<lambda>(k, i). updateActivePane batch upd (KeyMsg k) (setActivePane i m))
            [(''tab'', (activePane m + 1) mod len (panes m)),
             (''shift+tab'', (activePane m - 1) mod len (panes m)),
             (''1'', 0), (''2'', 1), (''3'', 2), (''4'', 3)]"
    by (rule fall_through_details [where batch = batch and n = "len (panes m)", OF assms ok f])
next
  assume a: "0 \<le> activePane d \<and> activePane d < len (panes d)"
  then have ok: "router_ok (len (panes d)) d" by (simp add: router_ok_def)
  show "map (\<lambda>k. Update_diff batch upd rfr (KeyMsg k) d) switching_keys_diff
        = map (\<lambda>(k, i). updateActivePane batch upd (KeyMsg k) (setActivePane i d))
            [(''tab'', (activePane d + 1) mod len (panes d)),
             (''shift+tab'', (activePane d - 1) mod len (panes d)),
             (''1'', 0), (''2'', 1), (''3'', 2), (''4'', 3), (''5'', 4)]"
    by (rule fall_through_diff [where batch = batch and n = "len (panes d)", OF assms ok])
next
  assume a: "k \<notin> set returning_keys \<and> k \<notin> set switching_keys_details \<and> focus m = FocusLeftPanes"
  then obtain m1 where m1: "handleKeyMsg_details batch rfr k m = Some (m1, None)"
      "panes m1 = panes m" "activePane m1 = activePane m" "focus m1 = FocusLeftPanes"
    using other_keys_details [where batch = batch and k = k and m = m and rfr = rfr, OF assms] by blast
  have sp: "k \<noteq> '' ''" using a by (auto simp: returning_keys_def)
  from Update_details_hands_on [OF m1(1) sp m1(4)] m1
  show "\<exists>m1. handleKeyMsg_details batch rfr k m = Some (m1, None)
               \<and> panes m1 = panes m \<and> activePane m1 = activePane m
               \<and> Update_details batch upd rfr (KeyMsg k) m = updateActivePane batch upd (KeyMsg k) m1"
    by blast
next
  assume a: "k \<notin> set returning_keys \<and> k \<notin> set switching_keys_diff"
  then obtain d1 where d1: "handleKeyMsg_diff batch rfr k d = Some (d1, None)"
      "panes d1 = panes d" "activePane d1 = activePane d"
    using other_keys_diff [where batch = batch and k = k and m = d and rfr = rfr, OF assms] by blast
  from Update_diff_hands_on [OF d1(1)] d1
  show "\<exists>d1. handleKeyMsg_diff batch rfr k d = Some (d1, None)
               \<and> panes d1 = panes d \<and> activePane d1 = activePane d
               \<and> Update_diff batch upd rfr (KeyMsg k) d = updateActivePane batch upd (KeyMsg k) d1"
    by blast
next
  assume "0 \<le> activePane r \<and> activePane r < len (panes r)"
  then show "updateActivePane batch upd msg r =
          Some (r\<lparr>panes := (panes r)[nat (activePane r) := fst (upd msg (panes r ! nat (activePane r)))]\<rparr>,
                batch (case snd (upd msg (panes r ! nat (activePane r))) of
                         None \<Rightarrow> [] | Some c \<Rightarrow> [c]))"
    by (simp add: updateActivePane_in_range)
qed

theorem C4_key_routing_witness:
  "batch_nil_on_empty [] = None
   \<and> snd (refreshAll batch_nil_on_empty StashPane_Refresh four_pane_router) \<noteq> None
   \<and> Update_details batch_nil_on_empty recording_Update StashPane_Refresh (KeyMsg ''ctrl+r'') four_pane_router
       = Some (refreshAll batch_nil_on_empty StashPane_Refresh four_pane_router)
   \<and> snd (refreshAll batch_nil_on_empty StashPane_Refresh five_pane_router) \<noteq> None
   \<and> Update_diff batch_nil_on_empty recording_Update StashPane_Refresh (KeyMsg ''ctrl+r'') five_pane_router
       = Some (refreshAll batch_nil_on_empty StashPane_Refresh five_pane_router)
   \<and> Update_details batch_nil_on_empty recording_Update StashPane_Refresh (KeyMsg ''q'') four_pane_router
       = Some (four_pane_router\<lparr>quitting := True\<rparr>, Some Quit)
   \<and> focus four_pane_router = FocusLeftPanes
   \<and> 0 \<le> activePane four_pane_router \<and> activePane four_pane_router < len (panes four_pane_router)
   \<and> 0 \<le> activePane five_pane_router \<and> activePane five_pane_router < len (panes five_pane_router)
   \<and> map_option (\<lambda>(m', c). (activePane m', map active (panes m'), map loading (panes m')))
        (Update_details batch_nil_on_empty recording_Update StashPane_Refresh (KeyMsg ''tab'') four_pane_router)
       = Some (1, [False, True, False, False], [False, True, False, False])
   \<and> map_option (\<lambda>(m', c). (activePane m', map active (panes m'), map loading (panes m')))
        (Update_diff batch_nil_on_empty recording_Update StashPane_Refresh (KeyMsg ''1'') five_pane_router)
       = Some (0, [True, False, False, False, False], [True, False, False, False, False])
   \<and> ''j'' \<notin> set returning_keys \<and> ''j'' \<notin> set switching_keys_details
   \<and> ''j'' \<notin> set switching_keys_diff
   \<and> map_option (\<lambda>(m', c). map loading (panes m'))
        (Update_details batch_nil_on_empty recording_Update StashPane_Refresh (KeyMsg ''j'') four_pane_router)
       = Some [True, False, False, False]
   \<and> map_option (\<lambda>(m', c). map loading (panes m'))
        (Update_diff batch_nil_on_empty recording_Update StashPane_Refresh (KeyMsg ''j'') five_pane_router)
       = Some [False, False, False, False, True]
   \<and> map_option (\<lambda>(m', c). map loading (panes m'))
        (updateActivePane batch_nil_on_empty recording_Update (KeyMsg ''x'') four_pane_router)
       = Some [True, False, False, False]"
proof -
  have h0: "batch_nil_on_empty [] = None" by (simp add: batch_nil_on_empty_def)
  have r4: "snd (refreshAll batch_nil_on_empty StashPane_Refresh four_pane_router) \<noteq> None"
    by (simp add: refreshAll_def four_pane_router_fields StashPane_Refresh_def batch_nil_on_empty_def)
  have r5: "snd (refreshAll batch_nil_on_empty StashPane_Refresh five_pane_router) \<noteq> None"
    by (simp add: refreshAll_def five_pane_router_fields StashPane_Refresh_def batch_nil_on_empty_def)
  have q: "''q'' = ''q'' \<or> ''q'' = ''ctrl+c''" by simp
  have f4: "focus four_pane_router = FocusLeftPanes" "0 \<le> activePane four_pane_router"
    "activePane four_pane_router < len (panes four_pane_router)"
    by (simp_all add: four_pane_router_fields len_def)
  have f5: "0 \<le> activePane five_pane_router" "activePane five_pane_router < len (panes five_pane_router)"
    by (simp_all add: five_pane_router_fields len_def)
  have g4: "focus four_pane_router = FocusLeftPanes \<and> 0 \<le> activePane four_pane_router
      \<and> activePane four_pane_router < len (panes four_pane_router)"
    using f4 by blast
  have g5: "0 \<le> activePane five_pane_router \<and> activePane five_pane_router < len (panes five_pane_router)"
    using f5 by blast
  have g9: "0 \<le> activePane four_pane_router \<and> activePane four_pane_router < len (panes four_pane_router)"
    using f4 by blast
  have j: "''j'' \<notin> set returning_keys" "''j'' \<notin> set switching_keys_details"
    "''j'' \<notin> set switching_keys_diff"
    by (simp_all add: returning_keys_def switching_keys_details_def switching_keys_diff_def)
  have j4: "''j'' \<notin> set returning_keys \<and> ''j'' \<notin> set switching_keys_details
      \<and> focus four_pane_router = FocusLeftPanes"
    using j f4 by blast
  have j5: "''j'' \<notin> set returning_keys \<and> ''j'' \<notin> set switching_keys_diff"
    using j by blast
  note tq = C4_key_routing [where batch = batch_nil_on_empty and upd = recording_Update
      and rfr = StashPane_Refresh and m = four_pane_router and d = five_pane_router
      and k = "''q''" and r = four_pane_router and msg = "KeyMsg ''x''", OF h0]
  note tj = C4_key_routing [where batch = batch_nil_on_empty and upd = recording_Update
      and rfr = StashPane_Refresh and m = four_pane_router and d = five_pane_router
      and k = "''j''" and r = four_pane_router and msg = "KeyMsg ''x''", OF h0]
  note c3 = tq [THEN conjunct2, THEN conjunct1, THEN mp, OF q, THEN conjunct1]
  note c1 = tq [THEN conjunct2, THEN conjunct2, THEN conjunct1, THEN mp, OF r4]
  note c2 = tq [THEN conjunct2, THEN conjunct2, THEN conjunct2, THEN conjunct1, THEN mp, OF r5]
  note n4 = tq [THEN conjunct2, THEN conjunct2, THEN conjunct2, THEN conjunct2, THEN conjunct1,
      THEN mp, OF g4]
  note n5 = tq [THEN conjunct2, THEN conjunct2, THEN conjunct2, THEN conjunct2, THEN conjunct2,
      THEN conjunct1, THEN mp, OF g5]
  note o4 = tj [THEN conjunct2, THEN conjunct2, THEN conjunct2, THEN conjunct2, THEN conjunct2,
      THEN conjunct2, THEN conjunct1, THEN mp, OF j4]
  note o5 = tj [THEN conjunct2, THEN conjunct2, THEN conjunct2, THEN conjunct2, THEN conjunct2,
      THEN conjunct2, THEN conjunct2, THEN conjunct1, THEN mp, OF j5]
  note e9 = tq [THEN conjunct2, THEN conjunct2, THEN conjunct2, THEN conjunct2, THEN conjunct2,
      THEN conjunct2, THEN conjunct2, THEN conjunct2, THEN mp, OF g9]
  have s4: "panes (setActivePane 1 four_pane_router) =
       [NewBasePaneModel ''Workspace'' StatusPaneType ''workspace'',
        (NewBasePaneModel ''Packages'' BranchesPaneType ''packages'')\<lparr>active := True\<rparr>,
        NewBasePaneModel ''Pull Requests'' CommitsPaneType ''pullrequests'',
        NewBasePaneModel ''Greeting'' StashPaneType ''greeting'']"
    "activePane (setActivePane 1 four_pane_router) = 1"
    by (simp_all add: setActivePane_def four_pane_router_fields len_def SetActive_def
        NewBasePaneModel_def)
  have s5: "panes (setActivePane 0 five_pane_router) =
       [(NewBasePaneModel ''Status'' StatusPaneType ''status'')\<lparr>active := True\<rparr>,
        NewBasePaneModel ''Files'' FilesPaneType ''files'',
        NewBasePaneModel ''Branches'' BranchesPaneType ''branches'',
        NewBasePaneModel ''Commits'' CommitsPaneType ''commits'',
        NewBasePaneModel ''Stash'' StashPaneType ''stash'']"
    "activePane (setActivePane 0 five_pane_router) = 0"
    by (simp_all add: setActivePane_def five_pane_router_fields len_def SetActive_def
        NewBasePaneModel_def)
  from n4 have "Update_details batch_nil_on_empty recording_Update StashPane_Refresh (KeyMsg ''tab'')
        four_pane_router
      = updateActivePane batch_nil_on_empty recording_Update (KeyMsg ''tab'')
          (setActivePane 1 four_pane_router)"
    by (simp add: switching_keys_details_def four_pane_router_fields len_def)
  then have d4: "map_option (\<lambda>(m', c). (activePane m', map active (panes m'), map loading (panes m')))
        (Update_details batch_nil_on_empty recording_Update StashPane_Refresh (KeyMsg ''tab'') four_pane_router)
       = Some (1, [False, True, False, False], [False, True, False, False])"
    by (simp add: updateActivePane_def s4 len_def recording_Update_def SetLoading_def
        NewBasePaneModel_def)
  from n5 have "Update_diff batch_nil_on_empty recording_Update StashPane_Refresh (KeyMsg ''1'')
        five_pane_router
      = updateActivePane batch_nil_on_empty recording_Update (KeyMsg ''1'')
          (setActivePane 0 five_pane_router)"
    by (simp add: switching_keys_diff_def)
  then have d5: "map_option (\<lambda>(m', c). (activePane m', map active (panes m'), map loading (panes m')))
        (Update_diff batch_nil_on_empty recording_Update StashPane_Refresh (KeyMsg ''1'') five_pane_router)
       = Some (0, [True, False, False, False, False], [True, False, False, False, False])"
    by (simp add: updateActivePane_def s5 len_def recording_Update_def SetLoading_def
        NewBasePaneModel_def)
  from o4 obtain m1 where m1: "panes m1 = panes four_pane_router"
      "activePane m1 = activePane four_pane_router"
      "Update_details batch_nil_on_empty recording_Update StashPane_Refresh (KeyMsg ''j'') four_pane_router
        = updateActivePane batch_nil_on_empty recording_Update (KeyMsg ''j'') m1"
    by blast
  have d6: "map_option (\<lambda>(m', c). map loading (panes m'))
        (Update_details batch_nil_on_empty recording_Update StashPane_Refresh (KeyMsg ''j'') four_pane_router)
       = Some [True, False, False, False]"
    unfolding m1(3)
    by (simp add: updateActivePane_def m1(1,2) four_pane_router_fields len_def recording_Update_def
        SetLoading_def NewBasePaneModel_def)
  from o5 obtain d1 where d1: "panes d1 = panes five_pane_router"
      "activePane d1 = activePane five_pane_router"
      "Update_diff batch_nil_on_empty recording_Update StashPane_Refresh (KeyMsg ''j'') five_pane_router
        = updateActivePane batch_nil_on_empty recording_Update (KeyMsg ''j'') d1"
    by blast
  have d7: "map_option (\<lambda>(m', c). map loading (panes m'))
        (Update_diff batch_nil_on_empty recording_Update StashPane_Refresh (KeyMsg ''j'') five_pane_router)
       = Some [False, False, False, False, True]"
    unfolding d1(3)
    by (simp add: updateActivePane_def d1(1,2) five_pane_router_fields len_def recording_Update_def
        SetLoading_def NewBasePaneModel_def)
  have d9: "map_option (\<lambda>(m', c). map loading (panes m'))
        (updateActivePane batch_nil_on_empty recording_Update (KeyMsg ''x'') four_pane_router)
       = Some [True, False, False, False]"
    unfolding e9
    by (simp add: four_pane_router_fields recording_Update_def SetLoading_def NewBasePaneModel_def)
  show ?thesis
    by (intro conjI) (rule h0 r4 c1 r5 c2 c3 f4 f5 d4 d5 j d6 d7 d9)+
qed

end
